theory Spec2Isabelle
  imports Main "HOL-Library.AList"
begin

section \<open>Client side: chunked image transfer (room page script)\<close>

text \<open>
  The room page script splits a large image payload into chunks
  (\<^verbatim>\<open>sendImageInChunks\<close>) and reassembles relayed chunks in its
  \<^verbatim>\<open>socket.on('imageChunk')\<close> listener, buffering them in the global object
  \<^verbatim>\<open>imageChunks\<close>, keyed by the timestamp of the transfer.
\<close>

type_synonym sid = string
type_synonym roomCode = string

text \<open>The placement metadata object built by \<^verbatim>\<open>sendImageInChunks\<close>.\<close>

record meta =
  meta_x :: int
  meta_y :: int
  meta_width :: int
  meta_height :: int
  meta_timestamp :: int
  meta_userId :: sid

text \<open>One \<^verbatim>\<open>chunkData\<close> message; \<^verbatim>\<open>meta\<close> is \<^verbatim>\<open>null\<close> on every chunk but the first.\<close>

record chunkData =
  chunkIndex :: nat
  totalChunks :: nat
  chunk :: string
  userId :: sid
  timestamp :: int
  meta :: "meta option"

text \<open>
  An entry of \<^verbatim>\<open>imageChunks\<close>. The JavaScript array \<^verbatim>\<open>new Array(totalChunks)\<close> is a
  list of slots, \<open>None\<close> being a hole.
\<close>

record transfer =
  chunks :: "string option list"
  t_meta :: "meta option"
  received :: nat

text \<open>
  \<^verbatim>\<open>arr[i] = v\<close>: inside the array the slot is overwritten, beyond its end JavaScript
  extends the array with holes up to index \<open>i\<close>.
\<close>

definition js_array_set :: "'a option list \<Rightarrow> nat \<Rightarrow> 'a \<Rightarrow> 'a option list" where
  "js_array_set xs i v =
     (if i < length xs then xs[i := Some v]
      else xs @ replicate (i - length xs) None @ [Some v])"

text \<open>\<^verbatim>\<open>arr.join('')\<close>: holes contribute the empty string.\<close>

definition js_join :: "string option list \<Rightarrow> string" where
  "js_join xs = concat (map (\<lambda>c. case c of None \<Rightarrow> [] | Some s \<Rightarrow> s) xs)"

text \<open>
  The listener. It returns the new \<^verbatim>\<open>imageChunks\<close> and, when the transfer
  completes, the reassembled payload (\<^verbatim>\<open>fullImageData\<close>) with the metadata kept from
  chunk 0. The first argument is the receiver's own \<^verbatim>\<open>socket.id\<close>.
\<close>

definition onImageChunk ::
  "sid \<Rightarrow> (int \<rightharpoonup> transfer) \<Rightarrow> chunkData \<Rightarrow> (int \<rightharpoonup> transfer) \<times> (string \<times> meta option) option"
where
  "onImageChunk me imageChunks d =
     (if userId d = me then (imageChunks, None)
      else
        let ic1 = (if chunkIndex d = 0
                   then imageChunks(timestamp d \<mapsto>
                          \<lparr>chunks = replicate (totalChunks d) None, t_meta = meta d, received = 0\<rparr>)
                   else imageChunks)
        in case ic1 (timestamp d) of
             None \<Rightarrow> (ic1, None)
           | Some t \<Rightarrow>
               let t' = t\<lparr>chunks := js_array_set (chunks t) (chunkIndex d) (chunk d),
                          received := received t + 1\<rparr>
               in if received t' = totalChunks d
                  then (ic1(timestamp d := None), Some (js_join (chunks t'), t_meta t'))
                  else (ic1(timestamp d \<mapsto> t'), None))"

text \<open>Delivering a sequence of chunk messages, collecting the images reassembled on the way.\<close>

fun deliver ::
  "sid \<Rightarrow> (int \<rightharpoonup> transfer) \<Rightarrow> chunkData list \<Rightarrow> (int \<rightharpoonup> transfer) \<times> (string \<times> meta option) list"
where
  "deliver me ic [] = (ic, [])"
| "deliver me ic (d # ds) =
     (case onImageChunk me ic d of
        (ic', None) \<Rightarrow> deliver me ic' ds
      | (ic', Some img) \<Rightarrow> (case deliver me ic' ds of (ic'', imgs) \<Rightarrow> (ic'', img # imgs)))"

text \<open>
  An image record as the page builds it (\<^verbatim>\<open>compressAndProcessImage\<close>): payload, placement,
  timestamp, origin and the \<^verbatim>\<open>synced\<close> flag. The fields \<^verbatim>\<open>x\<close>, \<^verbatim>\<open>y\<close>, \<^verbatim>\<open>width\<close>,
  \<^verbatim>\<open>height\<close>, \<^verbatim>\<open>timestamp\<close> and \<^verbatim>\<open>userId\<close> carry the prefix \<open>img_\<close> here.
\<close>

record image =
  imageData :: string
  img_x :: int
  img_y :: int
  img_width :: int
  img_height :: int
  img_timestamp :: int
  img_userId :: sid
  synced :: bool

text \<open>What the sender emits: one \<^verbatim>\<open>pasteImage\<close> or a run of \<^verbatim>\<open>imageChunk\<close> messages.\<close>

datatype client_emit = EmitPasteImage image | EmitImageChunk chunkData

text \<open>\<^verbatim>\<open>str.substring(start, end)\<close> for \<open>start \<le> end\<close>.\<close>

definition substring :: "string \<Rightarrow> nat \<Rightarrow> nat \<Rightarrow> string" where
  "substring str start fin = take (fin - start) (drop start str)"

text \<open>
  \<^verbatim>\<open>sendImageInChunks\<close>, with the chunk size as a parameter; the script fixes it to
  \<^verbatim>\<open>MAX_CHUNK_SIZE = 50 * 1024\<close>. \<^verbatim>\<open>Math.ceil(len / max)\<close> is \<open>(len + max - 1) div max\<close>.
\<close>

definition sendImageInChunks_sized :: "nat \<Rightarrow> image \<Rightarrow> client_emit list" where
  "sendImageInChunks_sized maxChunk img =
     (let imageDataStr = imageData img;
          total = (length imageDataStr + maxChunk - 1) div maxChunk;
          m = \<lparr>meta_x = img_x img, meta_y = img_y img, meta_width = img_width img,
               meta_height = img_height img, meta_timestamp = img_timestamp img,
               meta_userId = img_userId img\<rparr>
      in if total = 1 then [EmitPasteImage img]
         else map (\<lambda>i. EmitImageChunk
                \<lparr>chunkIndex = i, totalChunks = total,
                 chunk = substring imageDataStr (i * maxChunk)
                           (min (i * maxChunk + maxChunk) (length imageDataStr)),
                 userId = img_userId img, timestamp = img_timestamp img,
                 meta = (if i = 0 then Some m else None)\<rparr>) [0..<total])"

definition MAX_CHUNK_SIZE :: nat where
  "MAX_CHUNK_SIZE = 50 * 1024"

definition sendImageInChunks :: "image \<Rightarrow> client_emit list" where
  "sendImageInChunks = sendImageInChunks_sized MAX_CHUNK_SIZE"

section \<open>Server: data model\<close>

text \<open>
  The server (\<^verbatim>\<open>backend/server.js\<close>) keeps its rooms in the object \<^verbatim>\<open>rooms\<close>, mirrors them
  to Redis when Redis is reachable, and talks to the clients through Socket.IO. Fields of
  a room object hold JavaScript values of several types (a boolean set by the server, a
  string read back from Redis, \<^verbatim>\<open>undefined\<close> when the field is missing), so they are
  modelled by a small type of JavaScript values; \<^verbatim>\<open>===\<close> is equality on it.
\<close>

datatype jsval = JUndefined | JNull | JBool bool | JNum int | JStr string

fun truthy :: "jsval \<Rightarrow> bool" where
  "truthy JUndefined = False"
| "truthy JNull = False"
| "truthy (JBool b) = b"
| "truthy (JNum n) = (n \<noteq> 0)"
| "truthy (JStr s) = (s \<noteq> [])"

text \<open>The \<^verbatim>\<open>drawData\<close> object of the page; its field \<^verbatim>\<open>size\<close> is \<open>pen_size\<close> here.\<close>

record stroke =
  startX :: int
  startY :: int
  endX :: int
  endY :: int
  color :: string
  pen_size :: int
  tool :: string

text \<open>
  A room object. \<^verbatim>\<open>createRoom\<close> and the \<^verbatim>\<open>joinRoom\<close> listener write all five fields; the
  route \<^verbatim>\<open>/room/:roomCode\<close> writes only the first three, which leaves \<open>creatorId\<close> and
  \<open>drawingEnabled\<close> \<^verbatim>\<open>undefined\<close>.
\<close>

record room =
  createdAt :: int
  lastActive :: int
  users :: int
  creatorId :: jsval
  drawingEnabled :: jsval

subsection \<open>The Redis store\<close>

text \<open>
  A room hash in Redis holds strings. The three numeric fields are kept as the result of
  \<^verbatim>\<open>parseInt\<close> on the stored string (\<open>None\<close> for a missing or non-numeric field); the other
  two are the stored string, if any. The lists of strokes and images hold JSON text in
  Redis; \<^verbatim>\<open>JSON.parse\<close> of \<^verbatim>\<open>JSON.stringify\<close> of a stroke or an image gives it back, so
  the lists hold the values themselves.
\<close>

record rhash =
  h_createdAt :: "int option"
  h_lastActive :: "int option"
  h_users :: "int option"
  h_creatorId :: "string option"
  h_drawingEnabled :: "string option"

datatype rkey = RoomKey roomCode | PointsKey roomCode | ImagesKey roomCode

record redis =
  hashes :: "roomCode \<rightharpoonup> rhash"
  points :: "roomCode \<rightharpoonup> stroke list"
  images :: "roomCode \<rightharpoonup> image list"
  ttl :: "rkey \<rightharpoonup> nat"

definition empty_hash :: rhash where
  "empty_hash = \<lparr>h_createdAt = None, h_lastActive = None, h_users = None,
                 h_creatorId = None, h_drawingEnabled = None\<rparr>"

definition r_exists :: "redis \<Rightarrow> rkey \<Rightarrow> bool" where
  "r_exists r k = (case k of RoomKey c \<Rightarrow> hashes r c \<noteq> None
                           | PointsKey c \<Rightarrow> points r c \<noteq> None
                           | ImagesKey c \<Rightarrow> images r c \<noteq> None)"

text \<open>\<^verbatim>\<open>HSET\<close> writes the given fields into the hash, creating it when the key is new.\<close>

definition hSet :: "roomCode \<Rightarrow> (rhash \<Rightarrow> rhash) \<Rightarrow> redis \<Rightarrow> redis" where
  "hSet c f r =
     r\<lparr>hashes := (hashes r)(c \<mapsto> f (case hashes r c of None \<Rightarrow> empty_hash | Some h \<Rightarrow> h))\<rparr>"

definition expire :: "rkey \<Rightarrow> nat \<Rightarrow> redis \<Rightarrow> redis" where
  "expire k secs r = (if r_exists r k then r\<lparr>ttl := (ttl r)(k \<mapsto> secs)\<rparr> else r)"

definition persist :: "rkey \<Rightarrow> redis \<Rightarrow> redis" where
  "persist k r = r\<lparr>ttl := (ttl r)(k := None)\<rparr>"

definition rPush_points :: "roomCode \<Rightarrow> stroke \<Rightarrow> redis \<Rightarrow> redis" where
  "rPush_points c p r =
     r\<lparr>points := (points r)(c \<mapsto> (case points r c of None \<Rightarrow> [] | Some ps \<Rightarrow> ps) @ [p])\<rparr>"

definition rPush_images :: "roomCode \<Rightarrow> image \<Rightarrow> redis \<Rightarrow> redis" where
  "rPush_images c i r =
     r\<lparr>images := (images r)(c \<mapsto> (case images r c of None \<Rightarrow> [] | Some is \<Rightarrow> is) @ [i])\<rparr>"

definition lRange_points :: "redis \<Rightarrow> roomCode \<Rightarrow> stroke list" where
  "lRange_points r c = (case points r c of None \<Rightarrow> [] | Some ps \<Rightarrow> ps)"

definition lRange_images :: "redis \<Rightarrow> roomCode \<Rightarrow> image list" where
  "lRange_images r c = (case images r c of None \<Rightarrow> [] | Some is \<Rightarrow> is)"

definition del :: "rkey \<Rightarrow> redis \<Rightarrow> redis" where
  "del k r =
     (case k of
        RoomKey c \<Rightarrow> r\<lparr>hashes := (hashes r)(c := None), ttl := (ttl r)(k := None)\<rparr>
      | PointsKey c \<Rightarrow> r\<lparr>points := (points r)(c := None), ttl := (ttl r)(k := None)\<rparr>
      | ImagesKey c \<Rightarrow> r\<lparr>images := (images r)(c := None), ttl := (ttl r)(k := None)\<rparr>)"

text \<open>
  The state of the connection to Redis. \<open>Down\<close>: \<^verbatim>\<open>isRedisAvailable()\<close> is false (no
  client was created, as in every run outside production, or the connection failed), and
  a command sent all the same throws. \<open>Faulty\<close>: \<^verbatim>\<open>isRedisAvailable()\<close> is true but the
  commands throw. \<open>Up\<close>: the commands succeed. The state of the connection does not change
  while a listener runs; a failure between two commands of one listener is not modelled.
\<close>

datatype redis_mode = Up | Faulty | Down

subsection \<open>The server state\<close>

text \<open>
  \<open>rooms\<close> is the object \<^verbatim>\<open>rooms\<close> (a list of entries, since the sweep walks
  \<^verbatim>\<open>Object.entries(rooms)\<close>); \<open>userRooms\<close> the map of the same name; \<open>currentRoom\<close> the
  variable \<^verbatim>\<open>currentRoom\<close> that every connection closes over; \<open>adapter\<close> is
  \<^verbatim>\<open>io.sockets.adapter.rooms\<close>, the live set of sockets in each Socket.IO room, a list
  without repetition; \<open>creatorHeader\<close> is the request header \<^verbatim>\<open>x-creator-id\<close> of each
  connection's handshake. A listener runs without interruption up to an \<^verbatim>\<open>await\<close> on a
  Redis command; there the other listeners may run. Two such points are modelled with what
  runs at them as a parameter: the \<^verbatim>\<open>await redisClient.exists\<close> of the \<^verbatim>\<open>joinRoom\<close>
  listener and the \<^verbatim>\<open>await\<close>s of the first loop of the sweep. At the other \<^verbatim>\<open>await\<close>s (the
  history reads of \<^verbatim>\<open>joinRoom\<close>, the writes of the stroke and image listeners, the second
  loop of the sweep) nothing runs in between. The listeners that only answer \<^verbatim>\<open>ping\<close> and
  status requests or send \<^verbatim>\<open>usersList\<close> are left out, except the second listener
  registered for \<^verbatim>\<open>joinRoom\<close>, which fails.
\<close>

record server =
  rooms :: "(roomCode \<times> room) list"
  userRooms :: "sid \<rightharpoonup> roomCode"
  currentRoom :: "sid \<rightharpoonup> roomCode"
  adapter :: "roomCode \<Rightarrow> sid list"
  creatorHeader :: "sid \<Rightarrow> jsval"
  redis :: redis
  redisMode :: redis_mode

definition isRedisAvailable :: "server \<Rightarrow> bool" where
  "isRedisAvailable s = (redisMode s \<noteq> Down)"

text \<open>
  A run of awaited Redis commands inside a \<^verbatim>\<open>try\<close> block whose \<^verbatim>\<open>catch\<close> only logs: the
  commands take effect when Redis is up, and nothing is written when they throw.
\<close>

definition redis_try :: "(redis \<Rightarrow> redis) \<Rightarrow> server \<Rightarrow> server" where
  "redis_try f s = (if redisMode s = Up then s\<lparr>redis := f (redis s)\<rparr> else s)"

text \<open>\<^verbatim>\<open>rooms[code]\<close>, \<^verbatim>\<open>rooms[code] = r\<close> and \<^verbatim>\<open>delete rooms[code]\<close>.\<close>

definition room_of :: "server \<Rightarrow> roomCode \<Rightarrow> room option" where
  "room_of s c = map_of (rooms s) c"

definition set_room :: "roomCode \<Rightarrow> room \<Rightarrow> server \<Rightarrow> server" where
  "set_room c r s = s\<lparr>rooms := AList.update c r (rooms s)\<rparr>"

definition delete_room :: "roomCode \<Rightarrow> server \<Rightarrow> server" where
  "delete_room c s = s\<lparr>rooms := AList.delete c (rooms s)\<rparr>"

text \<open>\<^verbatim>\<open>sockets ? sockets.size : 0\<close> for \<^verbatim>\<open>sockets = io.sockets.adapter.rooms.get(code)\<close>.\<close>

definition actualUsers :: "server \<Rightarrow> roomCode \<Rightarrow> nat" where
  "actualUsers s c = length (adapter s c)"

text \<open>\<^verbatim>\<open>socket.join(code)\<close> and \<^verbatim>\<open>socket.leave(code)\<close>.\<close>

definition socket_join :: "sid \<Rightarrow> roomCode \<Rightarrow> server \<Rightarrow> server" where
  "socket_join sock c s =
     s\<lparr>adapter := (adapter s)(c := (if sock \<in> set (adapter s c) then adapter s c
                                     else adapter s c @ [sock]))\<rparr>"

definition socket_leave :: "sid \<Rightarrow> roomCode \<Rightarrow> server \<Rightarrow> server" where
  "socket_leave sock c s = s\<lparr>adapter := (adapter s)(c := removeAll sock (adapter s c))\<rparr>"

text \<open>
  The room a connection is in, as the guards \<^verbatim>\<open>if (!currentRoom)\<close> and
  \<^verbatim>\<open>if (currentRoom)\<close> see it: \<^verbatim>\<open>null\<close> and the empty string are both falsy.
\<close>

definition joinedRoom :: "server \<Rightarrow> sid \<Rightarrow> roomCode option" where
  "joinedRoom s sock =
     (case currentRoom s sock of None \<Rightarrow> None
      | Some c \<Rightarrow> if c = [] then None else Some c)"

subsection \<open>Messages to the clients\<close>

text \<open>
  \<open>ToSocket\<close> is \<^verbatim>\<open>socket.emit\<close>, \<open>ToRoomExcept c sock\<close> is \<^verbatim>\<open>socket.to(c).emit\<close> (the room
  without the sender), \<open>ToRoom\<close> is \<^verbatim>\<open>io.to(c).emit\<close>. The texts of the \<^verbatim>\<open>error\<close> events
  are named by the place that sends them.
\<close>

datatype target = ToSocket sid | ToRoomExcept roomCode sid | ToRoom roomCode

datatype errmsg =
    ErrNotJoinedReload | ErrNotJoined | ErrNoRoomInfo | ErrToggleNotCreator | ErrToggle
  | ErrImageSave | ErrClearNotCreator

datatype msg =
    RoomJoined roomCode sid nat bool jsval
  | UserJoined sid nat
  | UserLeft sid "nat option"
  | UserCountUpdated nat
  | LoadDrawing "stroke list"
  | LoadImages "image list"
  | Draw stroke
  | ImageChunk chunkData
  | PasteImage image
  | DrawingPermissionChanged jsval sid
  | ClearCanvas
  | Error errmsg

type_synonym emits = "(target \<times> msg) list"

text \<open>The sockets a message reaches, given the live sets at the time it is sent.\<close>

fun recipients :: "server \<Rightarrow> target \<Rightarrow> sid list" where
  "recipients s (ToSocket sock) = [sock]"
| "recipients s (ToRoomExcept c sock) = removeAll sock (adapter s c)"
| "recipients s (ToRoom c) = adapter s c"

section \<open>Server: room registry\<close>

text \<open>\<^verbatim>\<open>parseInt(v) || Date.now()\<close> and \<^verbatim>\<open>parseInt(v) || 0\<close>: \<^verbatim>\<open>NaN\<close> and \<open>0\<close> are falsy.\<close>

definition parseInt_or :: "int option \<Rightarrow> int \<Rightarrow> int" where
  "parseInt_or v d = (case v of None \<Rightarrow> d | Some n \<Rightarrow> if n = 0 then d else n)"

definition field_val :: "string option \<Rightarrow> jsval" where
  "field_val v = (case v of None \<Rightarrow> JUndefined | Some str \<Rightarrow> JStr str)"

text \<open>The object \<^verbatim>\<open>roomData\<close> built from \<^verbatim>\<open>hGetAll\<close>, at time \<open>now\<close>.\<close>

definition roomData :: "int \<Rightarrow> rhash \<Rightarrow> room" where
  "roomData now h =
     \<lparr>createdAt = parseInt_or (h_createdAt h) now,
      lastActive = parseInt_or (h_lastActive h) now,
      users = parseInt_or (h_users h) 0,
      creatorId = field_val (h_creatorId h),
      drawingEnabled = field_val (h_drawingEnabled h)\<rparr>"

text \<open>
  \<^verbatim>\<open>createRoom(roomCode, creatorId = null)\<close>. The room object is written unconditionally;
  the hash is written when Redis is available, and a failure there is caught. The hash
  field is \<^verbatim>\<open>creatorId || ''\<close>.
\<close>

definition createRoom :: "int \<Rightarrow> roomCode \<Rightarrow> jsval \<Rightarrow> server \<Rightarrow> server" where
  "createRoom now c creator s =
     (let s1 = set_room c \<lparr>createdAt = now, lastActive = now, users = 0,
                            creatorId = creator, drawingEnabled = JBool True\<rparr> s
      in if isRedisAvailable s1
         then redis_try
                (\<lambda>r. expire (RoomKey c) (24 * 60 * 60)
                   (hSet c (\<lambda>h. h\<lparr>h_createdAt := Some now, h_lastActive := Some now,
                                   h_users := Some 0,
                                   h_creatorId :=
                                     Some (case creator of JStr str \<Rightarrow> str | _ \<Rightarrow> []),
                                   h_drawingEnabled := Some ''true''\<rparr>) r)) s1
         else s1)"

text \<open>
  \<^verbatim>\<open>getRoomInfo(roomCode)\<close>: the cached room, else the room read from Redis (and cached),
  else \<^verbatim>\<open>null\<close>. An error of Redis is caught by the inner \<^verbatim>\<open>catch\<close> and gives \<^verbatim>\<open>null\<close>.
  The outer \<^verbatim>\<open>catch\<close>, which answers a fresh object with the fields \<^verbatim>\<open>createdAt\<close>,
  \<^verbatim>\<open>lastActive\<close> and \<^verbatim>\<open>users\<close> only, is not reached: nothing outside the inner \<^verbatim>\<open>try\<close>
  throws, and that object would not be stored in \<^verbatim>\<open>rooms\<close>.
\<close>

definition getRoomInfo :: "int \<Rightarrow> roomCode \<Rightarrow> server \<Rightarrow> room option \<times> server" where
  "getRoomInfo now c s =
     (case room_of s c of
        Some r \<Rightarrow> (Some r, s)
      | None \<Rightarrow>
          if isRedisAvailable s
          then (if redisMode s = Up
                then (case hashes (redis s) c of
                        Some h \<Rightarrow> (Some (roomData now h), set_room c (roomData now h) s)
                      | None \<Rightarrow> (None, s))
                else (None, s))
          else (None, s))"

text \<open>
  The route \<^verbatim>\<open>GET /room/:roomCode\<close>: a room unknown to the cache is created on the spot,
  with the three fields \<^verbatim>\<open>createdAt\<close>, \<^verbatim>\<open>lastActive\<close> and \<^verbatim>\<open>users\<close> only.
\<close>

definition http_room :: "int \<Rightarrow> roomCode \<Rightarrow> server \<Rightarrow> server" where
  "http_room now c s =
     (case room_of s c of
        Some r \<Rightarrow> s
      | None \<Rightarrow>
          let s1 = set_room c \<lparr>createdAt = now, lastActive = now, users = 0,
                                creatorId = JUndefined, drawingEnabled = JUndefined\<rparr> s
          in if isRedisAvailable s1
             then redis_try
                    (\<lambda>r. expire (RoomKey c) (24 * 60 * 60)
                       (hSet c (\<lambda>h. h\<lparr>h_createdAt := Some now, h_lastActive := Some now,
                                       h_users := Some 0\<rparr>) r)) s1
             else s1)"

text \<open>
  \<^verbatim>\<open>updateRoomInfo(roomCode)\<close>: the cached counter is replaced by the size of the live set
  when the two differ, and the room is told the new count.
\<close>

definition updateRoomInfo :: "int \<Rightarrow> roomCode \<Rightarrow> server \<Rightarrow> server \<times> emits" where
  "updateRoomInfo now c s =
     (case room_of s c of
        None \<Rightarrow> (s, [])
      | Some r \<Rightarrow>
          if users r \<noteq> int (actualUsers s c)
          then (set_room c (r\<lparr>users := int (actualUsers s c), lastActive := now\<rparr>) s,
                [(ToRoom c, UserCountUpdated (actualUsers s c))])
          else (s, []))"

section \<open>Server: the Socket.IO listeners\<close>

subsection \<open>Joining and leaving\<close>

text \<open>
  First part of the \<^verbatim>\<open>joinRoom\<close> listener: a connection that is in a room leaves it, the
  room's count is recomputed, and the others are told (\<^verbatim>\<open>userLeft\<close>, here without a
  count).
\<close>

definition leavePrevious :: "int \<Rightarrow> sid \<Rightarrow> server \<Rightarrow> server \<times> emits" where
  "leavePrevious now sock s =
     (case joinedRoom s sock of
        None \<Rightarrow> (s, [])
      | Some prev \<Rightarrow>
          (case updateRoomInfo now prev (socket_leave sock prev s) of
             (s1, e) \<Rightarrow>
               (s1\<lparr>userRooms := (userRooms s1)(sock := None)\<rparr>,
                e @ [(ToRoomExcept prev sock, UserLeft sock None)])))"

text \<open>
  The history sent to the connection that joined: the stroke log, and the image list when
  it is not empty. Without Redis, and when Redis fails, both come as empty lists.
\<close>

definition loadHistory :: "sid \<Rightarrow> roomCode \<Rightarrow> server \<Rightarrow> emits" where
  "loadHistory sock c s =
     (if isRedisAvailable s
      then (if redisMode s = Up
            then [(ToSocket sock, LoadDrawing (lRange_points (redis s) c))]
            else [(ToSocket sock, LoadDrawing [])])
      else [(ToSocket sock, LoadDrawing [])]) @
     (if isRedisAvailable s
      then (if redisMode s = Up
            then (if length (lRange_images (redis s) c) > 0
                  then [(ToSocket sock, LoadImages (lRange_images (redis s) c))] else [])
            else [(ToSocket sock, LoadImages [])])
      else [(ToSocket sock, LoadImages [])])"

text \<open>
  Second part of the \<^verbatim>\<open>joinRoom\<close> listener. It reads \<^verbatim>\<open>rooms[roomCode]\<close> into the local
  \<^verbatim>\<open>roomInfo\<close>; when that is empty and Redis is available it sends \<^verbatim>\<open>exists\<close> and waits
  for the answer. \<open>Cached r\<close>: the room was in the cache, nothing is awaited. \<open>NotAsked\<close>:
  not cached and Redis not available, nothing is awaited. \<open>Awaited ex\<close>: the listener is
  suspended, and \<open>ex\<close> is the answer that Redis gives to the \<^verbatim>\<open>exists\<close> sent (false also
  when the command fails, since the \<^verbatim>\<open>catch\<close> leaves \<^verbatim>\<open>roomInfo\<close> empty).
\<close>

datatype probe = Cached room | Awaited bool | NotAsked

definition enterRoom_probe :: "roomCode \<Rightarrow> server \<Rightarrow> probe" where
  "enterRoom_probe c s =
     (case room_of s c of
        Some r \<Rightarrow> Cached r
      | None \<Rightarrow>
          if isRedisAvailable s
          then Awaited (redisMode s = Up \<and> hashes (redis s) c \<noteq> None)
          else NotAsked)"

text \<open>
  The rest of the listener, in the state \<open>s\<close> in which it resumes, with the outcome \<open>p\<close>
  of the first part. After \<^verbatim>\<open>exists\<close> answered true the hash is read (\<^verbatim>\<open>hGetAll\<close> of a key
  that has gone gives the empty hash) and written over \<^verbatim>\<open>rooms[roomCode]\<close>. When the local
  \<^verbatim>\<open>roomInfo\<close> is still empty the room is created, with the joining socket as creator,
  over whatever \<^verbatim>\<open>rooms[roomCode]\<close> holds by then; the creation is the body of
  \<^verbatim>\<open>createRoom\<close>. \<open>roomInfo\<close> is the room object found or created; \<^verbatim>\<open>updateRoomInfo\<close>
  changes neither its \<open>creatorId\<close> nor its \<open>drawingEnabled\<close>.
\<close>

definition enterRoom_resume ::
  "int \<Rightarrow> sid \<Rightarrow> roomCode \<Rightarrow> probe \<Rightarrow> server \<Rightarrow> server \<times> emits"
where
  "enterRoom_resume now sock c p s =
     (case (case p of
              Cached r \<Rightarrow> (Some r, s)
            | NotAsked \<Rightarrow> (None, s)
            | Awaited ex \<Rightarrow>
                if ex \<and> redisMode s = Up
                then (Some (roomData now (case hashes (redis s) c of
                                            None \<Rightarrow> empty_hash | Some h \<Rightarrow> h)),
                      set_room c (roomData now (case hashes (redis s) c of
                                                  None \<Rightarrow> empty_hash | Some h \<Rightarrow> h)) s)
                else (None, s)) of
        (found, s1) \<Rightarrow>
          let s2 = (case found of None \<Rightarrow> createRoom now c (JStr sock) s1 | Some r \<Rightarrow> s1);
              roomInfo = (case found of
                            None \<Rightarrow> \<lparr>createdAt = now, lastActive = now, users = 0,
                                     creatorId = JStr sock, drawingEnabled = JBool True\<rparr>
                          | Some r \<Rightarrow> r);
              s3 = (socket_join sock c s2)
                     \<lparr>currentRoom := (currentRoom s2)(sock \<mapsto> c),
                      userRooms := (userRooms s2)(sock \<mapsto> c)\<rparr>
          in (case updateRoomInfo now c s3 of
                (s4, e) \<Rightarrow>
                  (s4,
                   e @ [(ToSocket sock,
                         RoomJoined c sock (actualUsers s4 c) (JStr sock = creatorId roomInfo)
                           (drawingEnabled roomInfo)),
                        (ToRoomExcept c sock, UserJoined sock (actualUsers s4 c))]
                     @ loadHistory sock c s4)))"

text \<open>The second part when nothing else runs while it waits.\<close>

definition enterRoom :: "int \<Rightarrow> sid \<Rightarrow> roomCode \<Rightarrow> server \<Rightarrow> server \<times> emits" where
  "enterRoom now sock c s = enterRoom_resume now sock c (enterRoom_probe c s) s"

text \<open>A step in which nothing happens.\<close>

definition idle :: "server \<Rightarrow> server \<times> emits" where
  "idle s = (s, [])"

text \<open>
  The first listener registered for \<^verbatim>\<open>joinRoom\<close>, with \<open>other\<close> for what the other
  listeners do while it waits for \<^verbatim>\<open>exists\<close>; when it does not wait, \<open>other\<close> does not run.
\<close>

definition joinRoom_at ::
  "int \<Rightarrow> sid \<Rightarrow> roomCode \<Rightarrow> (server \<Rightarrow> server \<times> emits) \<Rightarrow> server \<Rightarrow> server \<times> emits"
where
  "joinRoom_at now sock c other s =
     (case leavePrevious now sock s of
        (s1, e1) \<Rightarrow>
          (case enterRoom_probe c s1 of
             Awaited ex \<Rightarrow>
               (case other s1 of
                  (s2, e2) \<Rightarrow>
                    (case enterRoom_resume now sock c (Awaited ex) s2 of
                       (s3, e3) \<Rightarrow> (s3, e1 @ e2 @ e3)))
           | p \<Rightarrow>
               (case enterRoom_resume now sock c p s1 of (s3, e3) \<Rightarrow> (s3, e1 @ e3))))"

text \<open>The first listener when nothing else runs while it waits.\<close>

definition joinRoom :: "int \<Rightarrow> sid \<Rightarrow> roomCode \<Rightarrow> server \<Rightarrow> server \<times> emits" where
  "joinRoom now sock c s =
     (case leavePrevious now sock s of
        (s1, e1) \<Rightarrow> (case enterRoom now sock c s1 of (s2, e2) \<Rightarrow> (s2, e1 @ e2)))"

text \<open>
  The second listener registered for \<^verbatim>\<open>joinRoom\<close>, in the state in which it runs: when the
  live set of the room is not empty it maps over the sockets and reads \<^verbatim>\<open>roomInfo\<close>, a
  name that is declared nowhere in its scope, so the \<^verbatim>\<open>async\<close> function throws and its
  promise is rejected with nobody to handle it. It sends nothing in any case.
\<close>

definition joinRoom_usersList :: "roomCode \<Rightarrow> server \<Rightarrow> bool" where
  "joinRoom_usersList c s = (adapter s c \<noteq> [])"

text \<open>
  Whether a \<^verbatim>\<open>joinRoom\<close> event ends in that unhandled rejection. The second listener runs
  as soon as the first one waits or returns: before the socket has joined when the first
  waits for \<^verbatim>\<open>exists\<close>, after it has joined otherwise.
\<close>

definition joinRoom_rejects :: "int \<Rightarrow> sid \<Rightarrow> roomCode \<Rightarrow> server \<Rightarrow> bool" where
  "joinRoom_rejects now sock c s =
     (case leavePrevious now sock s of
        (s1, e1) \<Rightarrow>
          (case enterRoom_probe c s1 of
             Awaited ex \<Rightarrow> joinRoom_usersList c s1
           | p \<Rightarrow> joinRoom_usersList c (fst (enterRoom_resume now sock c p s1))))"

text \<open>
  The \<^verbatim>\<open>disconnect\<close> listener. Socket.IO has taken the socket out of every room before
  the event fires, which is the first step here.
\<close>

definition disconnect :: "int \<Rightarrow> sid \<Rightarrow> server \<Rightarrow> server \<times> emits" where
  "disconnect now sock s =
     (let s0 = s\<lparr>adapter := (\<lambda>c. removeAll sock (adapter s c))\<rparr>
      in case joinedRoom s0 sock of
           None \<Rightarrow> (s0, [])
         | Some cur \<Rightarrow>
             (case updateRoomInfo now cur (s0\<lparr>userRooms := (userRooms s0)(sock := None)\<rparr>) of
                (s1, e) \<Rightarrow>
                  (s1, e @ [(ToRoomExcept cur sock, UserLeft sock (Some (actualUsers s1 cur)))])))"

subsection \<open>Strokes\<close>

text \<open>\<^verbatim>\<open>saveDrawingPoint\<close>: nothing without Redis; an error of Redis is caught and logged.\<close>

definition saveDrawingPoint :: "roomCode \<Rightarrow> stroke \<Rightarrow> server \<Rightarrow> server" where
  "saveDrawingPoint c p s =
     (if isRedisAvailable s
      then redis_try (\<lambda>r. expire (PointsKey c) (24 * 60 * 60) (rPush_points c p r)) s
      else s)"

text \<open>\<^verbatim>\<open>getDrawingPoints\<close>: the empty list without Redis and when Redis fails.\<close>

definition getDrawingPoints :: "server \<Rightarrow> roomCode \<Rightarrow> stroke list" where
  "getDrawingPoints s c =
     (if isRedisAvailable s
      then (if redisMode s = Up then lRange_points (redis s) c else [])
      else [])"

definition clearDrawingPoints :: "roomCode \<Rightarrow> server \<Rightarrow> server" where
  "clearDrawingPoints c s =
     (if isRedisAvailable s then redis_try (del (PointsKey c)) s else s)"

text \<open>The \<^verbatim>\<open>draw\<close> listener.\<close>

definition draw :: "sid \<Rightarrow> stroke \<Rightarrow> server \<Rightarrow> server \<times> emits" where
  "draw sock data s =
     (case joinedRoom s sock of
        None \<Rightarrow> (s, [])
      | Some cur \<Rightarrow>
          (case room_of s cur of
             None \<Rightarrow> (s, [])
           | Some roomInfo \<Rightarrow>
               if drawingEnabled roomInfo = JBool False \<and> JStr sock \<noteq> creatorId roomInfo
               then (s, [])
               else (saveDrawingPoint cur data s, [(ToRoomExcept cur sock, Draw data)])))"

text \<open>The \<^verbatim>\<open>requestDrawingData\<close> listener.\<close>

definition requestDrawingData :: "sid \<Rightarrow> server \<Rightarrow> server \<times> emits" where
  "requestDrawingData sock s =
     (case joinedRoom s sock of
        None \<Rightarrow> (s, [])
      | Some cur \<Rightarrow> (s, [(ToSocket sock, LoadDrawing (getDrawingPoints s cur))]))"

subsection \<open>Images\<close>

text \<open>\<^verbatim>\<open>saveImage\<close> answers whether the image was stored.\<close>

definition saveImage :: "roomCode \<Rightarrow> image \<Rightarrow> server \<Rightarrow> bool \<times> server" where
  "saveImage c i s =
     (if isRedisAvailable s
      then (if redisMode s = Up
            then (True, s\<lparr>redis := expire (ImagesKey c) (24 * 60 * 60)
                                      (rPush_images c i (redis s))\<rparr>)
            else (False, s))
      else (False, s))"

definition getImages :: "server \<Rightarrow> roomCode \<Rightarrow> image list" where
  "getImages s c =
     (if isRedisAvailable s
      then (if redisMode s = Up then lRange_images (redis s) c else [])
      else [])"

definition clearImages :: "roomCode \<Rightarrow> server \<Rightarrow> server" where
  "clearImages c s =
     (if isRedisAvailable s then redis_try (del (ImagesKey c)) s else s)"

text \<open>The \<^verbatim>\<open>imageChunk\<close> listener relays the chunk and keeps nothing.\<close>

definition imageChunk :: "sid \<Rightarrow> chunkData \<Rightarrow> server \<Rightarrow> server \<times> emits" where
  "imageChunk sock data s =
     (case joinedRoom s sock of
        None \<Rightarrow> (s, [(ToSocket sock, Error ErrNotJoinedReload)])
      | Some cur \<Rightarrow> (s, [(ToRoomExcept cur sock, ImageChunk data)]))"

text \<open>
  The \<^verbatim>\<open>pasteImage\<close> listener: a falsy \<^verbatim>\<open>userId\<close> or \<^verbatim>\<open>timestamp\<close> is filled in, the image is
  saved, and it is broadcast only when \<^verbatim>\<open>saveImage\<close> answered \<^verbatim>\<open>true\<close>.
\<close>

definition pasteImage :: "int \<Rightarrow> sid \<Rightarrow> image \<Rightarrow> server \<Rightarrow> server \<times> emits" where
  "pasteImage now sock data s =
     (case joinedRoom s sock of
        None \<Rightarrow> (s, [(ToSocket sock, Error ErrNotJoinedReload)])
      | Some cur \<Rightarrow>
          let d1 = (if img_userId data = [] then data\<lparr>img_userId := sock\<rparr> else data);
              d2 = (if img_timestamp d1 = 0 then d1\<lparr>img_timestamp := now\<rparr> else d1)
          in (case saveImage cur d2 s of
                (True, s1) \<Rightarrow> (s1, [(ToRoomExcept cur sock, PasteImage d2)])
              | (False, s1) \<Rightarrow> (s1, [(ToSocket sock, Error ErrImageSave)])))"

text \<open>The \<^verbatim>\<open>requestImageData\<close> listener.\<close>

definition requestImageData :: "sid \<Rightarrow> server \<Rightarrow> server \<times> emits" where
  "requestImageData sock s =
     (case joinedRoom s sock of
        None \<Rightarrow> (s, [(ToSocket sock, Error ErrNotJoinedReload)])
      | Some cur \<Rightarrow> (s, [(ToSocket sock, LoadImages (getImages s cur))]))"

subsection \<open>The creator's controls\<close>

text \<open>
  \<^verbatim>\<open>isCreator\<close> as \<^verbatim>\<open>toggleDrawing\<close> and \<^verbatim>\<open>clearCanvas\<close> compute it: the socket id or the
  handshake header \<^verbatim>\<open>x-creator-id\<close> is strictly equal to the room's \<open>creatorId\<close>.
\<close>

definition isCreator :: "server \<Rightarrow> sid \<Rightarrow> room \<Rightarrow> bool" where
  "isCreator s sock roomInfo =
     (JStr sock = creatorId roomInfo \<or> creatorHeader s sock = creatorId roomInfo)"

text \<open>
  The \<^verbatim>\<open>toggleDrawing\<close> listener. The room object is updated before Redis is written, so
  when that write throws the flag has changed, the room is not told, and the requester
  gets the error of the \<^verbatim>\<open>catch\<close> block.
\<close>

definition toggleDrawing :: "sid \<Rightarrow> jsval \<Rightarrow> server \<Rightarrow> server \<times> emits" where
  "toggleDrawing sock enabled s =
     (case joinedRoom s sock of
        None \<Rightarrow> (s, [(ToSocket sock, Error ErrNotJoined)])
      | Some cur \<Rightarrow>
          (case room_of s cur of
             None \<Rightarrow> (s, [(ToSocket sock, Error ErrNoRoomInfo)])
           | Some roomInfo \<Rightarrow>
               if \<not> isCreator s sock roomInfo
               then (s, [(ToSocket sock, Error ErrToggleNotCreator)])
               else
                 let s1 = set_room cur (roomInfo\<lparr>drawingEnabled := enabled\<rparr>) s
                 in if isRedisAvailable s1
                    then (if redisMode s1 = Up
                          then (s1\<lparr>redis := hSet cur
                                   (\<lambda>h. h\<lparr>h_drawingEnabled :=
                                      Some (if truthy enabled then ''true'' else ''false'')\<rparr>)
                                   (redis s1)\<rparr>,
                                [(ToRoom cur, DrawingPermissionChanged enabled sock)])
                          else (s1, [(ToSocket sock, Error ErrToggle)]))
                    else (s1, [(ToRoom cur, DrawingPermissionChanged enabled sock)])))"

text \<open>The \<^verbatim>\<open>clearCanvas\<close> listener.\<close>

definition clearCanvas :: "sid \<Rightarrow> server \<Rightarrow> server \<times> emits" where
  "clearCanvas sock s =
     (case joinedRoom s sock of
        None \<Rightarrow> (s, [])
      | Some cur \<Rightarrow>
          (case room_of s cur of
             None \<Rightarrow> (s, [(ToSocket sock, Error ErrNoRoomInfo)])
           | Some roomInfo \<Rightarrow>
               if \<not> isCreator s sock roomInfo
               then (s, [(ToSocket sock, Error ErrClearNotCreator)])
               else (clearImages cur (clearDrawingPoints cur s),
                     [(ToRoomExcept cur sock, ClearCanvas)])))"

section \<open>Server: the periodic sweep\<close>

text \<open>
  The interval that runs every minute has two loops over \<^verbatim>\<open>Object.entries(rooms)\<close>. The
  first corrects the cached member count of each room from the live set. Its body reads
  the size of the live set into the local \<^verbatim>\<open>actualUsers\<close> and, when the cached counter
  differs, writes the counter and sends \<^verbatim>\<open>exists\<close> to Redis, without asking
  \<^verbatim>\<open>isRedisAvailable()\<close>, inside a \<^verbatim>\<open>try\<close> whose \<^verbatim>\<open>catch\<close> only logs. \<open>reconcile_read\<close> is
  this part; it answers the local and what \<^verbatim>\<open>exists\<close> will answer (false also when the
  command fails), or \<open>None\<close> when the counter agrees.
\<close>

definition reconcile_read :: "roomCode \<Rightarrow> server \<Rightarrow> server \<times> (nat \<times> bool) option" where
  "reconcile_read c s =
     (case room_of s c of
        None \<Rightarrow> (s, None)
      | Some room \<Rightarrow>
          if users room \<noteq> int (actualUsers s c)
          then (set_room c (room\<lparr>users := int (actualUsers s c)\<rparr>) s,
                Some (actualUsers s c,
                      redisMode s = Up \<and> r_exists (redis s) (RoomKey c)))
          else (s, None))"

text \<open>
  The rest of the body, in the state \<open>s\<close> in which it resumes: the writes to Redis when
  the key existed, then \<^verbatim>\<open>userCountUpdated\<close> with the local read before the \<^verbatim>\<open>await\<close>s.
\<close>

definition reconcile_write :: "int \<Rightarrow> roomCode \<Rightarrow> nat \<times> bool \<Rightarrow> server \<Rightarrow> server \<times> emits" where
  "reconcile_write now c p s =
     (case p of
        (n, ex) \<Rightarrow>
          ((if ex
            then redis_try
                   (\<lambda>r. (if n > 0 then persist (RoomKey c)
                         else expire (RoomKey c) (2 * 60 * 60))
                          (hSet c (\<lambda>h. h\<lparr>h_users := Some (int n),
                                          h_lastActive := Some now\<rparr>) r)) s
            else s),
           [(ToRoom c, UserCountUpdated n)]))"

text \<open>
  The body for one room, with \<open>other\<close> for what the listeners do while it waits for
  Redis. Without a client (\<open>Down\<close>) the call throws at once and nothing is awaited, so
  nothing runs in between.
\<close>

definition reconcileRoom_at ::
  "int \<Rightarrow> roomCode \<Rightarrow> (server \<Rightarrow> server \<times> emits) \<Rightarrow> server \<Rightarrow> server \<times> emits"
where
  "reconcileRoom_at now c other s =
     (case reconcile_read c s of
        (s1, None) \<Rightarrow> (s1, [])
      | (s1, Some p) \<Rightarrow>
          if redisMode s1 = Down then reconcile_write now c p s1
          else (case other s1 of
                  (s2, e2) \<Rightarrow>
                    (case reconcile_write now c p s2 of (s3, e3) \<Rightarrow> (s3, e2 @ e3))))"

text \<open>The body for one room when nothing else runs while it waits.\<close>

definition reconcileRoom :: "int \<Rightarrow> roomCode \<Rightarrow> server \<Rightarrow> server \<times> emits" where
  "reconcileRoom now c s = reconcileRoom_at now c idle s"

text \<open>Running a step over a list of room codes, collecting what is sent.\<close>

fun forRooms ::
  "(roomCode \<Rightarrow> server \<Rightarrow> server \<times> emits) \<Rightarrow> roomCode list \<Rightarrow> server \<Rightarrow> server \<times> emits"
where
  "forRooms f [] s = (s, [])"
| "forRooms f (c # cs) s =
     (case f c s of (s1, e1) \<Rightarrow> (case forRooms f cs s1 of (s2, e2) \<Rightarrow> (s2, e1 @ e2)))"

text \<open>
  The second loop deletes the rooms without members that have been inactive for more than
  an hour. The three \<^verbatim>\<open>del\<close> commands and \<^verbatim>\<open>delete rooms[roomCode]\<close> stand in this order
  in one \<^verbatim>\<open>try\<close> block, and Redis is not asked whether it is available: when a command
  throws, the \<^verbatim>\<open>catch\<close> logs and the room object stays.
\<close>

definition evictRoom :: "int \<Rightarrow> roomCode \<Rightarrow> server \<Rightarrow> server" where
  "evictRoom now c s =
     (case room_of s c of
        None \<Rightarrow> s
      | Some room \<Rightarrow>
          if users room \<le> 0 \<and> now - lastActive room > 60 * 60 * 1000
          then (if redisMode s = Up
                then delete_room c
                       (s\<lparr>redis := del (ImagesKey c) (del (PointsKey c) (del (RoomKey c) (redis s)))\<rparr>)
                else s)
          else s)"

text \<open>One run of the interval during which no listener runs.\<close>

definition sweep :: "int \<Rightarrow> server \<Rightarrow> server \<times> emits" where
  "sweep now s =
     (case forRooms (reconcileRoom now) (map fst (rooms s)) s of
        (s1, e) \<Rightarrow> (fold (evictRoom now) (map fst (rooms s1)) s1, e))"

text \<open>
  One run of the interval with \<open>other c\<close> for what the listeners do while the body of the
  first loop waits for Redis at room \<open>c\<close>.
\<close>

definition sweep_at ::
  "int \<Rightarrow> (roomCode \<Rightarrow> server \<Rightarrow> server \<times> emits) \<Rightarrow> server \<Rightarrow> server \<times> emits"
where
  "sweep_at now other s =
     (case forRooms (\<lambda>c. reconcileRoom_at now c (other c)) (map fst (rooms s)) s of
        (s1, e) \<Rightarrow> (fold (evictRoom now) (map fst (rooms s1)) s1, e))"

section \<open>Server: room codes\<close>

text \<open>The decimal text of a number, \<^verbatim>\<open>n.toString()\<close>.\<close>

fun toString :: "nat \<Rightarrow> string" where
  "toString n = (if n < 10 then [''0123456789'' ! n]
                 else toString (n div 10) @ [''0123456789'' ! (n mod 10)])"

declare toString.simps [simp del]

text \<open>
  \<^verbatim>\<open>createUniqueRoomCode\<close>. The values of \<^verbatim>\<open>Math.floor(100000 + Math.random() * 900000)\<close>
  drawn by the successive rounds of the loop are given as the sequence \<open>rnd\<close>; the
  argument \<open>i\<close> counts the rounds. The loop has no other exit than a code that
  \<^verbatim>\<open>getRoomInfo\<close> does not know, so the result is \<open>None\<close> when it runs forever.
\<close>

partial_function (option) createUniqueRoomCode ::
  "int \<Rightarrow> (nat \<Rightarrow> nat) \<Rightarrow> nat \<Rightarrow> server \<Rightarrow> (roomCode \<times> server) option"
where
  "createUniqueRoomCode now rnd i s =
     (case getRoomInfo now (toString (rnd i)) s of
        (Some roomInfo, s1) \<Rightarrow> createUniqueRoomCode now rnd (Suc i) s1
      | (None, s1) \<Rightarrow> Some (toString (rnd i), s1))"

text \<open>
  The route \<^verbatim>\<open>GET /api/create-room\<close>: a fresh code, and a room whose creator is the token
  made of the requester's address and the time.
\<close>

definition api_create_room ::
  "int \<Rightarrow> string \<Rightarrow> (nat \<Rightarrow> nat) \<Rightarrow> server \<Rightarrow> (roomCode \<times> string \<times> server) option"
where
  "api_create_room now ip rnd s =
     (case createUniqueRoomCode now rnd 0 s of
        None \<Rightarrow> None
      | Some (c, s1) \<Rightarrow>
          Some (c, ip @ ''-'' @ toString (nat now),
                createRoom now c (JStr (ip @ ''-'' @ toString (nat now))) s1))"

text \<open>A code is known when \<^verbatim>\<open>getRoomInfo\<close> finds it: in the cache, or in a reachable Redis.\<close>

definition known :: "server \<Rightarrow> roomCode \<Rightarrow> bool" where
  "known s c = (room_of s c \<noteq> None \<or> (redisMode s = Up \<and> hashes (redis s) c \<noteq> None))"

section \<open>Observations on what the server sends\<close>

text \<open>
  The member counts that a message reports, each with the room it is about: the field
  \<^verbatim>\<open>users\<close> of \<^verbatim>\<open>roomJoined\<close>, \<^verbatim>\<open>userJoined\<close>, \<^verbatim>\<open>userLeft\<close> and \<^verbatim>\<open>userCountUpdated\<close>. The
  room of \<^verbatim>\<open>roomJoined\<close> is its field \<^verbatim>\<open>roomCode\<close>, that of the others is the room the
  message is sent to.
\<close>

fun target_room :: "target \<Rightarrow> roomCode option" where
  "target_room (ToSocket sock) = None"
| "target_room (ToRoomExcept c sock) = Some c"
| "target_room (ToRoom c) = Some c"

definition count_for :: "target \<Rightarrow> nat \<Rightarrow> (roomCode \<times> nat) list" where
  "count_for t n = (case target_room t of None \<Rightarrow> [] | Some c \<Rightarrow> [(c, n)])"

fun reported :: "target \<times> msg \<Rightarrow> (roomCode \<times> nat) list" where
  "reported (t, RoomJoined c sock n cr en) = [(c, n)]"
| "reported (t, UserJoined sock n) = count_for t n"
| "reported (t, UserLeft sock (Some n)) = count_for t n"
| "reported (t, UserCountUpdated n) = count_for t n"
| "reported (t, m) = []"

text \<open>
  The outcome of a step reports live counts when every count in its messages is the size
  of the live set of its room in the state the step leaves.
\<close>

definition counts_live :: "server \<times> emits \<Rightarrow> bool" where
  "counts_live res =
     list_all (\<lambda>(c, n). n = actualUsers (fst res) c) (concat (map reported (snd res)))"

text \<open>The cached counter of a room agrees with its live set (or the room is not cached).\<close>

definition consistent :: "server \<Rightarrow> roomCode \<Rightarrow> bool" where
  "consistent s c =
     (case room_of s c of None \<Rightarrow> True | Some r \<Rightarrow> users r = int (actualUsers s c))"

text \<open>Every room cached in \<open>s\<close> is still cached in \<open>s'\<close>, with the same \<open>creatorId\<close>.\<close>

definition creator_kept :: "server \<Rightarrow> server \<Rightarrow> bool" where
  "creator_kept s s' =
     (\<forall>c r. room_of s c = Some r \<longrightarrow>
        (\<exists>r'. room_of s' c = Some r' \<and> creatorId r' = creatorId r))"

text \<open>Redis holds one of the three keys of a room.\<close>

definition in_store :: "redis \<Rightarrow> roomCode \<Rightarrow> bool" where
  "in_store r c = (hashes r c \<noteq> None \<or> points r c \<noteq> None \<or> images r c \<noteq> None)"

text \<open>
  Connections coming and going, in any order, one event after the other. \<open>ends\<close> says
  whether the runtime ends the process on an unhandled rejection, as Node does by default
  from version 15 on; the result is \<open>None\<close> when the process has ended.
\<close>

datatype action = Join sid roomCode | Leave sid

fun run :: "bool \<Rightarrow> int \<Rightarrow> action list \<Rightarrow> server \<Rightarrow> server option" where
  "run ends now [] s = Some s"
| "run ends now (Join sock c # as) s =
     (if ends \<and> joinRoom_rejects now sock c s then None
      else run ends now as (fst (joinRoom now sock c s)))"
| "run ends now (Leave sock # as) s = run ends now as (fst (disconnect now sock s))"

text \<open>
  The process starts anew: the object \<^verbatim>\<open>rooms\<close>, the map \<^verbatim>\<open>userRooms\<close> and every connection
  with its live sets and its \<^verbatim>\<open>currentRoom\<close> are gone; Redis keeps what it holds.
\<close>

definition restart :: "server \<Rightarrow> server" where
  "restart s = s\<lparr>rooms := [], userRooms := Map.empty, currentRoom := Map.empty,
                 adapter := (\<lambda>c. [])\<rparr>"

section \<open>Example data\<close>

text \<open>A three-chunk transfer sent by \<open>A\<close>, as \<^verbatim>\<open>sendImageInChunks\<close> labels its chunks.\<close>

definition ex_meta :: meta where
  "ex_meta = \<lparr>meta_x = 10, meta_y = 20, meta_width = 300, meta_height = 200,
              meta_timestamp = 1700000000000, meta_userId = ''A''\<rparr>"

definition ex_chunk :: "nat \<Rightarrow> string \<Rightarrow> chunkData" where
  "ex_chunk i p = \<lparr>chunkIndex = i, totalChunks = 3, chunk = p, userId = ''A'',
                   timestamp = 1700000000000, meta = (if i = 0 then Some ex_meta else None)\<rparr>"

text \<open>
  Room \<open>482913\<close>, created by \<open>A\<close>, with \<open>A\<close> and \<open>B\<close> connected; the state of Redis and
  the value of \<open>drawingEnabled\<close> vary.
\<close>

definition ex_redis :: redis where
  "ex_redis = \<lparr>hashes = Map.empty, points = Map.empty, images = Map.empty, ttl = Map.empty\<rparr>"

definition ex_room :: "jsval \<Rightarrow> room" where
  "ex_room en = \<lparr>createdAt = 1000, lastActive = 1000, users = 2,
                 creatorId = JStr ''A'', drawingEnabled = en\<rparr>"

definition ex_server :: "redis_mode \<Rightarrow> jsval \<Rightarrow> server" where
  "ex_server m en =
     \<lparr>rooms = [(''482913'', ex_room en)],
      userRooms = [''A'' \<mapsto> ''482913'', ''B'' \<mapsto> ''482913''],
      currentRoom = [''A'' \<mapsto> ''482913'', ''B'' \<mapsto> ''482913''],
      adapter = (\<lambda>c. [])(''482913'' := [''A'', ''B'']),
      creatorHeader = (\<lambda>sock. JUndefined),
      redis = ex_redis, redisMode = m\<rparr>"

text \<open>Two sequences of random draws: one that always hits the existing room, one that
  misses it at the third draw.\<close>

definition ex_rnd_stuck :: "nat \<Rightarrow> nat" where
  "ex_rnd_stuck i = 482913"

definition ex_rnd :: "nat \<Rightarrow> nat" where
  "ex_rnd i = (if i < 2 then 482913 else 100000 + i)"

definition ex_stroke :: stroke where
  "ex_stroke = \<lparr>startX = 0, startY = 0, endX = 10, endY = 10, color = ''#000'',
                pen_size = 2, tool = ''pen''\<rparr>"

definition ex_image :: image where
  "ex_image = \<lparr>imageData = ''data:image/jpeg;base64,AAAA'', img_x = 10, img_y = 20,
               img_width = 300, img_height = 200, img_timestamp = 1700000000000,
               img_userId = ''A'', synced = False\<rparr>"

text \<open>
  An image whose payload \<open>abc\<close> the sender cuts into the three chunks above when the
  chunk size is 1.
\<close>

definition ex_abc :: image where
  "ex_abc = \<lparr>imageData = ''abc'', img_x = 10, img_y = 20, img_width = 300, img_height = 200,
             img_timestamp = 1700000000000, img_userId = ''A'', synced = False\<rparr>"

text \<open>A server that has just started, with no room and no connection in a room.\<close>

definition ex_empty :: "redis_mode \<Rightarrow> server" where
  "ex_empty m =
     \<lparr>rooms = [], userRooms = Map.empty, currentRoom = Map.empty, adapter = (\<lambda>c. []),
      creatorHeader = (\<lambda>sock. JUndefined), redis = ex_redis, redisMode = m\<rparr>"

text \<open>
  Room \<open>482913\<close> brought into existence by the page route at time 1000, then joined over
  the socket by \<open>A\<close> and by \<open>B\<close>.
\<close>

definition ex_http :: "redis_mode \<Rightarrow> server" where
  "ex_http m =
     fst (joinRoom 2000 ''B'' ''482913''
       (fst (joinRoom 1500 ''A'' ''482913'' (http_room 1000 ''482913'' (ex_empty m)))))"

text \<open>Room \<open>482913\<close> with nobody in it, last active at time 0, known to Redis as well.\<close>

definition ex_idle :: "redis_mode \<Rightarrow> server" where
  "ex_idle m =
     \<lparr>rooms = [(''482913'', \<lparr>createdAt = 0, lastActive = 0, users = 0,
                             creatorId = JStr ''A'', drawingEnabled = JBool True\<rparr>)],
      userRooms = Map.empty, currentRoom = Map.empty, adapter = (\<lambda>c. []),
      creatorHeader = (\<lambda>sock. JUndefined),
      redis = \<lparr>hashes = [''482913'' \<mapsto> \<lparr>h_createdAt = Some 0, h_lastActive = Some 0,
                    h_users = Some 0, h_creatorId = Some ''A'',
                    h_drawingEnabled = Some ''true''\<rparr>],
               points = [''482913'' \<mapsto> [ex_stroke]], images = Map.empty,
               ttl = [RoomKey ''482913'' \<mapsto> 7200]\<rparr>,
      redisMode = m\<rparr>"

text \<open>
  Room \<open>482913\<close> with drawing switched off by its creator, read back after a restart.
  With Redis up, \<open>A\<close> creates the room over the socket and switches drawing off, and the
  process starts anew. Then \<open>B\<close> and \<open>C\<close> send \<^verbatim>\<open>joinRoom\<close> one right after the other: each
  listener finds the cache empty and waits for \<^verbatim>\<open>exists\<close>, which answers true to both,
  and they resume in turn.
\<close>

definition ex_toggled :: server where
  "ex_toggled =
     fst (toggleDrawing ''A'' (JBool False)
       (fst (joinRoom 1000 ''A'' ''482913'' (ex_empty Up))))"

definition ex_reloaded :: server where
  "ex_reloaded =
     fst (enterRoom_resume 2000 ''C'' ''482913'' (Awaited True)
       (fst (enterRoom_resume 2000 ''B'' ''482913'' (Awaited True) (restart ex_toggled))))"

text \<open>
  Room \<open>482913\<close> made by \<^verbatim>\<open>createRoom\<close> for the token \<open>10.0.0.1-1000\<close>, as the route
  \<^verbatim>\<open>/api/create-room\<close> does. \<open>A\<close> connects with that token in its header \<^verbatim>\<open>x-creator-id\<close>
  and joins, \<open>B\<close> joins, and \<open>A\<close> switches drawing off.
\<close>

definition ex_token :: server where
  "ex_token =
     fst (toggleDrawing ''A'' (JBool False)
       (fst (joinRoom 1200 ''B'' ''482913''
         (fst (joinRoom 1100 ''A'' ''482913''
           (createRoom 1000 ''482913'' (JStr ''10.0.0.1-1000'')
             ((ex_empty Down)
                \<lparr>creatorHeader :=
                   (\<lambda>sock. JUndefined)(''A'' := JStr ''10.0.0.1-1000'')\<rparr>)))))))"

text \<open>
  The room with the empty code. With Redis up, \<open>A\<close>, \<open>B\<close> and \<open>C\<close> send \<^verbatim>\<open>joinRoom\<close> with
  the empty string one right after the other: each listener finds the cache empty and
  waits for \<^verbatim>\<open>exists\<close>, which answers false to all three, and they resume in turn. Then
  \<open>A\<close> disconnects. Its \<^verbatim>\<open>currentRoom\<close> is the empty string, which the \<^verbatim>\<open>disconnect\<close>
  listener takes for no room, so the cached counter stays at 3 with two sockets left.
\<close>

definition ex_drift :: server where
  "ex_drift =
     fst (disconnect 1000 ''A''
       (fst (enterRoom_resume 1000 ''C'' [] (Awaited False)
         (fst (enterRoom_resume 1000 ''B'' [] (Awaited False)
           (fst (enterRoom_resume 1000 ''A'' [] (Awaited False) (ex_empty Up))))))))"

text \<open>
  What happens while the sweep waits for Redis at the room with the empty code: \<open>B\<close>
  disconnects. At the other rooms nothing happens.
\<close>

definition ex_B_leaves :: "roomCode \<Rightarrow> server \<Rightarrow> server \<times> emits" where
  "ex_B_leaves c = (if c = [] then disconnect 6000 ''B'' else idle)"

text \<open>\<open>A\<close> joins the room with the empty code, alone, and disconnects.\<close>

definition ex_left :: server where
  "ex_left = fst (disconnect 1000 ''A'' (fst (joinRoom 1000 ''A'' [] (ex_empty Up))))"

section \<open>Basic facts about the state\<close>

declare isRedisAvailable_def [simp] redis_try_def [simp]

text \<open>The uninterrupted join and the uninterrupted body of the sweep, written out.\<close>

lemma enterRoom_probe_getRoomInfo:
  "(case enterRoom_probe c s of
      Cached r \<Rightarrow> (Some r, s)
    | NotAsked \<Rightarrow> (None, s)
    | Awaited ex \<Rightarrow>
        if ex \<and> redisMode s = Up
        then (Some (roomData now (case hashes (redis s) c of
                                    None \<Rightarrow> empty_hash | Some h \<Rightarrow> h)),
              set_room c (roomData now (case hashes (redis s) c of
                                          None \<Rightarrow> empty_hash | Some h \<Rightarrow> h)) s)
        else (None, s)) = getRoomInfo now c s"
  by (auto simp: enterRoom_probe_def getRoomInfo_def split: option.splits)

lemma enterRoom_unfold:
  "enterRoom now sock c s =
     (case getRoomInfo now c s of
        (found, s1) \<Rightarrow>
          let s2 = (case found of None \<Rightarrow> createRoom now c (JStr sock) s1 | Some r \<Rightarrow> s1);
              roomInfo = (case found of
                            None \<Rightarrow> \<lparr>createdAt = now, lastActive = now, users = 0,
                                     creatorId = JStr sock, drawingEnabled = JBool True\<rparr>
                          | Some r \<Rightarrow> r);
              s3 = (socket_join sock c s2)
                     \<lparr>currentRoom := (currentRoom s2)(sock \<mapsto> c),
                      userRooms := (userRooms s2)(sock \<mapsto> c)\<rparr>
          in (case updateRoomInfo now c s3 of
                (s4, e) \<Rightarrow>
                  (s4,
                   e @ [(ToSocket sock,
                         RoomJoined c sock (actualUsers s4 c) (JStr sock = creatorId roomInfo)
                           (drawingEnabled roomInfo)),
                        (ToRoomExcept c sock, UserJoined sock (actualUsers s4 c))]
                     @ loadHistory sock c s4)))"
  unfolding enterRoom_def enterRoom_resume_def enterRoom_probe_getRoomInfo ..

lemma reconcileRoom_unfold:
  "reconcileRoom now c s =
     (case room_of s c of
        None \<Rightarrow> (s, [])
      | Some room \<Rightarrow>
          if users room \<noteq> int (actualUsers s c)
          then
            let s1 = set_room c (room\<lparr>users := int (actualUsers s c)\<rparr>) s;
                s2 = redis_try
                       (\<lambda>r. if r_exists r (RoomKey c)
                            then (if actualUsers s c > 0 then persist (RoomKey c)
                                  else expire (RoomKey c) (2 * 60 * 60))
                                   (hSet c (\<lambda>h. h\<lparr>h_users := Some (int (actualUsers s c)),
                                                   h_lastActive := Some now\<rparr>) r)
                            else r) s1
            in (s2, [(ToRoom c, UserCountUpdated (actualUsers s c))])
          else (s, []))"
  by (auto simp: reconcileRoom_def reconcileRoom_at_def reconcile_read_def reconcile_write_def
      idle_def Let_def set_room_def split: option.splits)

lemma joinRoom_at_idle: "joinRoom_at now sock c idle s = joinRoom now sock c s"
  by (simp add: joinRoom_at_def joinRoom_def enterRoom_def idle_def
      split: prod.splits probe.splits)

lemma room_of_set_room: "room_of (set_room c r s) d = (if d = c then Some r else room_of s d)"
  by (simp add: room_of_def set_room_def update_conv')

lemma set_room_other [simp]:
  "redis (set_room c r s) = redis s" "redisMode (set_room c r s) = redisMode s"
  "adapter (set_room c r s) = adapter s" "currentRoom (set_room c r s) = currentRoom s"
  "userRooms (set_room c r s) = userRooms s" "creatorHeader (set_room c r s) = creatorHeader s"
  by (simp_all add: set_room_def)

subsection \<open>Looking rooms up\<close>

lemma getRoomInfo_None: "(fst (getRoomInfo now c s) = None) = (\<not> known s c)"
  by (auto simp: getRoomInfo_def known_def split: option.splits)

lemma getRoomInfo_None_state: "fst (getRoomInfo now c s) = None \<Longrightarrow> snd (getRoomInfo now c s) = s"
  by (auto simp: getRoomInfo_def split: option.splits if_splits)

lemma getRoomInfo_known: "known (snd (getRoomInfo now c s)) d = known s d"
  by (auto simp: getRoomInfo_def known_def room_of_set_room split: option.splits)

lemma getRoomInfo_cases:
  obtains (unknown) "\<not> known s c" "getRoomInfo now c s = (None, s)"
  | (found) r s1 where "known s c" "getRoomInfo now c s = (Some r, s1)" "\<And>d. known s1 d = known s d"
proof (cases "known s c")
  case False
  then have "fst (getRoomInfo now c s) = None" by (simp add: getRoomInfo_None)
  then have "getRoomInfo now c s = (None, s)"
    using getRoomInfo_None_state[of now c s] by (metis prod.collapse)
  with False show ?thesis by (rule unknown)
next
  case True
  then have "fst (getRoomInfo now c s) \<noteq> None" by (simp add: getRoomInfo_None)
  then obtain r where "getRoomInfo now c s = (Some r, snd (getRoomInfo now c s))"
    by (metis option.exhaust prod.collapse)
  with True show ?thesis
    by (rule found) (rule getRoomInfo_known)
qed

lemma createUniqueRoomCode_found:
  "\<not> known s (toString (rnd (i + k))) \<Longrightarrow> \<forall>j<k. known s (toString (rnd (i + j))) \<Longrightarrow>
   \<exists>s'. createUniqueRoomCode now rnd i s = Some (toString (rnd (i + k)), s') \<and> (\<forall>d. known s' d = known s d)"
proof (induction k arbitrary: i s)
  case 0
  then have "\<not> known s (toString (rnd i))" by simp
  then have "getRoomInfo now (toString (rnd i)) s = (None, s)"
    by (cases rule: getRoomInfo_cases[of s "toString (rnd i)" now]) simp_all
  then show ?case
    by (subst createUniqueRoomCode.simps) simp
next
  case (Suc k)
  from Suc.prems(2) have "known s (toString (rnd (i + 0)))" by blast
  then have "known s (toString (rnd i))" by simp
  then obtain r s1 where g: "getRoomInfo now (toString (rnd i)) s = (Some r, s1)"
    and kn: "\<And>d. known s1 d = known s d"
    by (cases rule: getRoomInfo_cases[of s "toString (rnd i)" now]) simp_all
  have "\<not> known s1 (toString (rnd (Suc i + k)))" using Suc.prems(1) kn by simp
  moreover have "\<forall>j<k. known s1 (toString (rnd (Suc i + j)))"
  proof (intro allI impI)
    fix j assume "j < k"
    then have "Suc j < Suc k" by simp
    with Suc.prems(2) have "known s (toString (rnd (i + Suc j)))" by blast
    then show "known s1 (toString (rnd (Suc i + j)))" using kn by simp
  qed
  ultimately obtain s' where
    "createUniqueRoomCode now rnd (Suc i) s1 = Some (toString (rnd (Suc i + k)), s')"
    "\<forall>d. known s' d = known s1 d"
    using Suc.IH by blast
  then show ?case using g kn
    by (subst createUniqueRoomCode.simps) simp
qed

lemma createUniqueRoomCode_Some_unused:
  assumes "createUniqueRoomCode now rnd i s = Some y"
  shows "\<exists>k. \<not> known s (toString (rnd (i + k)))"
proof (rule createUniqueRoomCode.raw_induct
    [where P = "\<lambda>now rnd i s y. \<exists>k. \<not> known s (toString (rnd (i + k)))", OF _ assms])
  fix f :: "int \<Rightarrow> (nat \<Rightarrow> nat) \<Rightarrow> nat \<Rightarrow> server \<Rightarrow> (roomCode \<times> server) option"
    and t rn n st y
  assume IH: "\<And>t' rn' n' st' y'. f t' rn' n' st' = Some y' \<Longrightarrow>
                \<exists>k. \<not> known st' (toString (rn' (n' + k)))"
    and body: "(case getRoomInfo t (toString (rn n)) st of
                  (None, s1) \<Rightarrow> Some (toString (rn n), s1)
                | (Some roomInfo, s1) \<Rightarrow> f t rn (Suc n) s1) = Some y"
  show "\<exists>k. \<not> known st (toString (rn (n + k)))"
  proof (cases rule: getRoomInfo_cases[of st "toString (rn n)" t])
    case unknown
    then have "\<not> known st (toString (rn (n + 0)))" by simp
    then show ?thesis by blast
  next
    case (found r s1)
    from body found(2) have "f t rn (Suc n) s1 = Some y" by simp
    from IH[OF this] obtain k where "\<not> known s1 (toString (rn (Suc n + k)))"
      by blast
    then have "\<not> known st (toString (rn (n + Suc k)))" by (simp add: found(3))
    then show ?thesis by blast
  qed
qed

text \<open>The definitions that evaluating a scenario unfolds.\<close>

lemmas scenario_simps = joinRoom_def leavePrevious_def enterRoom_def enterRoom_probe_def enterRoom_resume_def
  joinedRoom_def room_of_def set_room_def createRoom_def socket_join_def updateRoomInfo_def
  actualUsers_def loadHistory_def toggleDrawing_def isCreator_def disconnect_def
  hSet_def expire_def r_exists_def empty_hash_def roomData_def parseInt_or_def field_val_def
  lRange_points_def lRange_images_def ex_empty_def ex_redis_def Let_def

subsection \<open>Member counts\<close>

lemma delete_room_other [simp]:
  "redis (delete_room c s) = redis s" "redisMode (delete_room c s) = redisMode s"
  "adapter (delete_room c s) = adapter s" "currentRoom (delete_room c s) = currentRoom s"
  "userRooms (delete_room c s) = userRooms s"
  by (simp_all add: delete_room_def)

lemma room_of_delete_room: "room_of (delete_room c s) d = (if d = c then None else room_of s d)"
  by (simp add: room_of_def delete_room_def delete_conv')

lemma room_of_redis_update [simp]: "room_of (s\<lparr>redis := r\<rparr>) = room_of s"
  by (simp add: room_of_def fun_eq_iff)

lemma actualUsers_set_room [simp]: "actualUsers (set_room c r s) = actualUsers s"
  by (simp add: actualUsers_def fun_eq_iff)

lemma updateRoomInfo_adapter [simp]: "adapter (fst (updateRoomInfo now c s)) = adapter s"
  by (simp add: updateRoomInfo_def split: option.splits)

lemma count_for_room [simp]:
  "count_for (ToRoom c) n = [(c, n)]" "count_for (ToRoomExcept c sock) n = [(c, n)]"
  "count_for (ToSocket sock) n = []"
  by (simp_all add: count_for_def)

lemma updateRoomInfo_reports:
  "list_all (\<lambda>(d, n). n = length (adapter s d)) (concat (map reported (snd (updateRoomInfo now c s))))"
  by (simp add: updateRoomInfo_def actualUsers_def split: option.splits)

lemma loadHistory_reports [simp]: "concat (map reported (loadHistory sock c s)) = []"
  by (simp add: loadHistory_def split: redis_mode.splits)

lemma counts_live_updateRoomInfo: "counts_live (updateRoomInfo now c s)"
  using updateRoomInfo_reports[of s now c]
  by (simp add: counts_live_def actualUsers_def)

lemma counts_live_leavePrevious: "counts_live (leavePrevious now sock s)"
proof (cases "joinedRoom s sock")
  case None
  then show ?thesis by (simp add: leavePrevious_def counts_live_def)
next
  case (Some prev)
  obtain s1 e where u: "updateRoomInfo now prev (socket_leave sock prev s) = (s1, e)"
    by (cases "updateRoomInfo now prev (socket_leave sock prev s)")
  have "counts_live (s1, e)" using counts_live_updateRoomInfo[of now prev "socket_leave sock prev s"] u by simp
  then show ?thesis using Some u
    by (simp add: leavePrevious_def counts_live_def actualUsers_def)
qed

lemma counts_live_enterRoom: "counts_live (enterRoom now sock c s)"
proof -
  obtain found s1 where g: "getRoomInfo now c s = (found, s1)" by (cases "getRoomInfo now c s")
  define s3 where "s3 = (socket_join sock c (case found of None \<Rightarrow> createRoom now c (JStr sock) s1 | Some r \<Rightarrow> s1))
         \<lparr>currentRoom := (currentRoom (case found of None \<Rightarrow> createRoom now c (JStr sock) s1 | Some r \<Rightarrow> s1))(sock \<mapsto> c),
          userRooms := (userRooms (case found of None \<Rightarrow> createRoom now c (JStr sock) s1 | Some r \<Rightarrow> s1))(sock \<mapsto> c)\<rparr>"
  obtain s4 e where u: "updateRoomInfo now c s3 = (s4, e)" by (cases "updateRoomInfo now c s3")
  have "counts_live (s4, e)" using counts_live_updateRoomInfo[of now c s3] u by simp
  then show ?thesis using g u
    by (simp add: enterRoom_unfold Let_def s3_def[symmetric] counts_live_def)
qed

lemma counts_live_disconnect: "counts_live (disconnect now sock s)"
proof -
  define s0 where "s0 = s\<lparr>adapter := (\<lambda>c. removeAll sock (adapter s c))\<rparr>"
  show ?thesis
  proof (cases "joinedRoom s0 sock")
    case None
    then show ?thesis by (simp add: disconnect_def Let_def s0_def[symmetric] counts_live_def)
  next
    case (Some cur)
    obtain s1 e where u: "updateRoomInfo now cur (s0\<lparr>userRooms := (userRooms s0)(sock := None)\<rparr>) = (s1, e)"
      by (cases "updateRoomInfo now cur (s0\<lparr>userRooms := (userRooms s0)(sock := None)\<rparr>)")
    have "counts_live (s1, e)"
      using counts_live_updateRoomInfo[of now cur "s0\<lparr>userRooms := (userRooms s0)(sock := None)\<rparr>"] u by simp
    then show ?thesis using Some u
      by (simp add: disconnect_def Let_def s0_def[symmetric] counts_live_def)
  qed
qed


lemma actualUsers_redis_update [simp]: "actualUsers (s\<lparr>redis := r\<rparr>) = actualUsers s"
  by (simp add: actualUsers_def fun_eq_iff)

lemma reconcileRoom_adapter [simp]: "adapter (fst (reconcileRoom now c s)) = adapter s"
  by (simp add: reconcileRoom_unfold Let_def split: option.splits)

lemma reconcileRoom_reports:
  "list_all (\<lambda>(d, n). n = length (adapter s d)) (concat (map reported (snd (reconcileRoom now c s))))"
  by (simp add: reconcileRoom_unfold Let_def actualUsers_def split: option.splits)

lemma reconcileRoom_room:
  "room_of (fst (reconcileRoom now c s)) d =
     (if d = c then map_option (\<lambda>r. r\<lparr>users := int (actualUsers s c)\<rparr>) (room_of s c)
      else room_of s d)"
  by (auto simp: reconcileRoom_unfold Let_def room_of_set_room split: option.splits)

lemma reconcileRoom_consistent:
  "d = c \<or> consistent s d \<Longrightarrow> consistent (fst (reconcileRoom now c s)) d"
  by (auto simp: consistent_def reconcileRoom_room actualUsers_def split: option.splits)

lemma forRooms_reconcile:
  "adapter (fst (forRooms (reconcileRoom now) cs s)) = adapter s \<and>
   list_all (\<lambda>(d, n). n = length (adapter s d))
     (concat (map reported (snd (forRooms (reconcileRoom now) cs s)))) \<and>
   (\<forall>d. d \<in> set cs \<or> consistent s d \<longrightarrow> consistent (fst (forRooms (reconcileRoom now) cs s)) d) \<and>
   (\<forall>d. (room_of (fst (forRooms (reconcileRoom now) cs s)) d = None) = (room_of s d = None))"
proof (induction cs arbitrary: s)
  case Nil
  show ?case by simp
next
  case (Cons c cs)
  obtain s1 e1 where r: "reconcileRoom now c s = (s1, e1)" by (cases "reconcileRoom now c s")
  obtain s2 e2 where f: "forRooms (reconcileRoom now) cs s1 = (s2, e2)"
    by (cases "forRooms (reconcileRoom now) cs s1")
  have a1: "adapter s1 = adapter s" using reconcileRoom_adapter[of now c s] r by simp
  have l1: "list_all (\<lambda>(d, n). n = length (adapter s d)) (concat (map reported e1))"
    using reconcileRoom_reports[of s now c] r by simp
  have c1: "\<And>d. d = c \<or> consistent s d \<Longrightarrow> consistent s1 d"
    using reconcileRoom_consistent[of _ c s now] r by simp
  have n1: "\<And>d. (room_of s1 d = None) = (room_of s d = None)"
    using reconcileRoom_room[of now c s] r by (auto split: if_splits)
  from Cons.IH[of s1] f have
    a2: "adapter s2 = adapter s1" and
    l2: "list_all (\<lambda>(d, n). n = length (adapter s1 d)) (concat (map reported e2))" and
    c2: "\<And>d. d \<in> set cs \<or> consistent s1 d \<Longrightarrow> consistent s2 d" and
    n2: "\<And>d. (room_of s2 d = None) = (room_of s1 d = None)"
    by auto
  have "\<forall>d. d \<in> set (c # cs) \<or> consistent s d \<longrightarrow> consistent s2 d"
    using c1 c2 by auto
  then show ?case using r f a1 a2 l1 l2 n1 n2 by simp
qed

lemma evictRoom_adapter [simp]: "adapter (evictRoom now c s) = adapter s"
  by (simp add: evictRoom_def split: option.splits)

lemma evictRoom_room:
  "room_of (evictRoom now c s) d = Some r \<Longrightarrow> room_of s d = Some r"
  by (auto simp: evictRoom_def room_of_delete_room split: option.splits if_splits)

lemma fold_evictRoom:
  "adapter (fold (evictRoom now) cs s) = adapter s \<and>
   (\<forall>d r. room_of (fold (evictRoom now) cs s) d = Some r \<longrightarrow> room_of s d = Some r)"
proof (induction cs arbitrary: s)
  case Nil
  show ?case by simp
next
  case (Cons c cs)
  from Cons.IH[of "evictRoom now c s"] show ?case
    by (auto dest: evictRoom_room)
qed

lemma room_of_keys: "room_of s d \<noteq> None \<Longrightarrow> d \<in> set (map fst (rooms s))"
  by (simp add: room_of_def map_of_eq_None_iff)

lemma counts_live_sweep: "counts_live (sweep now s)"
proof -
  obtain s1 e where f: "forRooms (reconcileRoom now) (map fst (rooms s)) s = (s1, e)"
    by (cases "forRooms (reconcileRoom now) (map fst (rooms s)) s")
  from forRooms_reconcile[of now "map fst (rooms s)" s] f
  have "adapter s1 = adapter s"
    and "list_all (\<lambda>(d, n). n = length (adapter s d)) (concat (map reported e))"
    by simp_all
  moreover have "adapter (fold (evictRoom now) (map fst (rooms s1)) s1) = adapter s1"
    using fold_evictRoom[of now "map fst (rooms s1)" s1] by simp
  ultimately show ?thesis using f
    by (simp add: sweep_def counts_live_def actualUsers_def)
qed

lemma sweep_consistent:
  assumes "room_of (fst (sweep now s)) d = Some r"
  shows "users r = int (actualUsers (fst (sweep now s)) d)"
proof -
  obtain s1 e where f: "forRooms (reconcileRoom now) (map fst (rooms s)) s = (s1, e)"
    by (cases "forRooms (reconcileRoom now) (map fst (rooms s)) s")
  let ?s2 = "fold (evictRoom now) (map fst (rooms s1)) s1"
  have s2: "fst (sweep now s) = ?s2" using f by (simp add: sweep_def)
  with assms have "room_of ?s2 d = Some r" by simp
  with fold_evictRoom[of now "map fst (rooms s1)" s1] have r1: "room_of s1 d = Some r"
    by blast
  from forRooms_reconcile[of now "map fst (rooms s)" s] f
  have cons: "\<And>d. d \<in> set (map fst (rooms s)) \<or> consistent s d \<Longrightarrow> consistent s1 d"
    and none: "\<And>d. (room_of s1 d = None) = (room_of s d = None)"
    by auto
  from r1 none[of d] have "room_of s d \<noteq> None" by simp
  then have "d \<in> set (map fst (rooms s))" by (rule room_of_keys)
  then have "consistent s1 d" using cons by blast
  with r1 have "users r = int (actualUsers s1 d)" by (simp add: consistent_def)
  moreover have "adapter ?s2 = adapter s1"
    using fold_evictRoom[of now "map fst (rooms s1)" s1] by simp
  ultimately show ?thesis using s2 by (simp add: actualUsers_def)
qed

lemma counts_live_enterRoom_resume: "counts_live (enterRoom_resume now sock c p s)"
proof -
  define found where "found =
    (case p of
       Cached r \<Rightarrow> (Some r, s)
     | NotAsked \<Rightarrow> (None, s)
     | Awaited ex \<Rightarrow>
         if ex \<and> redisMode s = Up
         then (Some (roomData now (case hashes (redis s) c of
                                     None \<Rightarrow> empty_hash | Some h \<Rightarrow> h)),
               set_room c (roomData now (case hashes (redis s) c of
                                           None \<Rightarrow> empty_hash | Some h \<Rightarrow> h)) s)
         else (None, s))"
  obtain f s1 where g: "found = (f, s1)" by (cases found)
  define s3 where "s3 = (socket_join sock c (case f of None \<Rightarrow> createRoom now c (JStr sock) s1 | Some r \<Rightarrow> s1))
         \<lparr>currentRoom := (currentRoom (case f of None \<Rightarrow> createRoom now c (JStr sock) s1 | Some r \<Rightarrow> s1))(sock \<mapsto> c),
          userRooms := (userRooms (case f of None \<Rightarrow> createRoom now c (JStr sock) s1 | Some r \<Rightarrow> s1))(sock \<mapsto> c)\<rparr>"
  obtain s4 e where u: "updateRoomInfo now c s3 = (s4, e)" by (cases "updateRoomInfo now c s3")
  have "counts_live (s4, e)" using counts_live_updateRoomInfo[of now c s3] u by simp
  then show ?thesis using g u
    by (simp add: enterRoom_resume_def found_def[symmetric] Let_def s3_def[symmetric]
        counts_live_def)
qed

lemma reconcile_read_count:
  assumes "snd (reconcile_read c s) = Some (n, ex)"
  shows "n = actualUsers s c" and "actualUsers (fst (reconcile_read c s)) c = n"
  using assms by (auto simp: reconcile_read_def split: option.splits if_splits)

lemma reconcile_write_report:
  "snd (reconcile_write now c (n, ex) s) = [(ToRoom c, UserCountUpdated n)]"
  by (simp add: reconcile_write_def)

lemma reconcile_write_adapter [simp]:
  "adapter (fst (reconcile_write now c p s)) = adapter s"
  by (cases p) (simp add: reconcile_write_def)

lemma counts_live_reconcile_write:
  "counts_live (reconcile_write now c (n, ex) s) = (actualUsers s c = n)"
  by (auto simp: counts_live_def reconcile_write_report actualUsers_def)

lemma reconcileRoom_at_Down:
  "redisMode s = Down \<Longrightarrow> reconcileRoom_at now c other s = reconcileRoom now c s"
  by (simp add: reconcileRoom_def reconcileRoom_at_def reconcile_read_def idle_def
      split: option.splits prod.splits)

lemma counts_live_reconcileRoom: "counts_live (reconcileRoom now c s)"
  using reconcileRoom_reports[of s now c]
  by (simp add: counts_live_def actualUsers_def)

lemma sweep_at_idle: "sweep_at now (\<lambda>c. idle) s = sweep now s"
  by (simp add: sweep_at_def sweep_def reconcileRoom_def[abs_def])

subsection \<open>The second listener of \<^verbatim>\<open>joinRoom\<close>\<close>

text \<open>
  When the first listener does not wait for \<^verbatim>\<open>exists\<close>, the socket has joined by the time
  the second listener runs, so the live set is not empty and the second listener fails:
  that is every join of a room that is in the cache, and every join without a Redis
  client. A runtime that ends the process on an unhandled rejection is then gone with the
  first such join.
\<close>

lemma enterRoom_resume_joined:
  "sock \<in> set (adapter (fst (enterRoom_resume now sock c p s)) c)"
proof -
  define found where "found =
    (case p of
       Cached r \<Rightarrow> (Some r, s)
     | NotAsked \<Rightarrow> (None, s)
     | Awaited ex \<Rightarrow>
         if ex \<and> redisMode s = Up
         then (Some (roomData now (case hashes (redis s) c of
                                     None \<Rightarrow> empty_hash | Some h \<Rightarrow> h)),
               set_room c (roomData now (case hashes (redis s) c of
                                           None \<Rightarrow> empty_hash | Some h \<Rightarrow> h)) s)
         else (None, s))"
  obtain f s1 where g: "found = (f, s1)" by (cases found)
  define s2 where "s2 = (case f of None \<Rightarrow> createRoom now c (JStr sock) s1 | Some r \<Rightarrow> s1)"
  define s3 where "s3 = (socket_join sock c s2)
         \<lparr>currentRoom := (currentRoom s2)(sock \<mapsto> c), userRooms := (userRooms s2)(sock \<mapsto> c)\<rparr>"
  obtain s4 e where u: "updateRoomInfo now c s3 = (s4, e)" by (cases "updateRoomInfo now c s3")
  have "sock \<in> set (adapter s3 c)" by (simp add: s3_def socket_join_def)
  moreover have "adapter s4 = adapter s3" using updateRoomInfo_adapter[of now c s3] u by simp
  ultimately have "sock \<in> set (adapter s4 c)" by simp
  then show ?thesis using g u
    by (simp add: enterRoom_resume_def found_def[symmetric] Let_def s2_def[symmetric]
        s3_def[symmetric])
qed

lemma joinRoom_rejects_when_not_waiting:
  assumes "\<forall>ex. enterRoom_probe c (fst (leavePrevious now sock s)) \<noteq> Awaited ex"
  shows "joinRoom_rejects now sock c s"
proof -
  obtain s1 e1 where l: "leavePrevious now sock s = (s1, e1)"
    by (cases "leavePrevious now sock s")
  have "adapter (fst (enterRoom_resume now sock c (enterRoom_probe c s1) s1)) c \<noteq> []"
    using enterRoom_resume_joined[of sock now c "enterRoom_probe c s1" s1] by auto
  moreover have "\<And>ex. enterRoom_probe c s1 \<noteq> Awaited ex" using assms l by simp
  ultimately show ?thesis using l
    by (cases "enterRoom_probe c s1") (simp_all add: joinRoom_rejects_def joinRoom_usersList_def)
qed

lemma joinRoom_rejects_without_redis:
  "redisMode s = Down \<Longrightarrow> joinRoom_rejects now sock c s"
proof (rule joinRoom_rejects_when_not_waiting)
  assume d: "redisMode s = Down"
  have "redisMode (fst (leavePrevious now sock s)) = Down"
    using d by (simp add: leavePrevious_def updateRoomInfo_def socket_leave_def
        split: option.splits prod.splits)
  then show "\<forall>ex. enterRoom_probe c (fst (leavePrevious now sock s)) \<noteq> Awaited ex"
    by (simp add: enterRoom_probe_def split: option.splits)
qed

lemma second_join_ends_process:
  "run True 1000 [Join ''A'' ''482913''] (ex_empty Up) \<noteq> None \<and>
   run True 1000 [Join ''A'' ''482913'', Join ''B'' ''482913''] (ex_empty Up) = None \<and>
   run True 1000 [Join ''A'' ''482913''] (ex_empty Down) = None \<and>
   run False 1000 [Join ''A'' ''482913'', Join ''B'' ''482913''] (ex_empty Down) \<noteq> None"
proof -
  have a: "\<not> joinRoom_rejects 1000 ''A'' ''482913'' (ex_empty Up)"
    by (simp add: joinRoom_rejects_def joinRoom_usersList_def scenario_simps)
  have b: "joinRoom_rejects 1000 ''B'' ''482913''
             (fst (joinRoom 1000 ''A'' ''482913'' (ex_empty Up)))"
    by (rule joinRoom_rejects_when_not_waiting)
      (simp add: scenario_simps)
  have c: "joinRoom_rejects 1000 ''A'' ''482913'' (ex_empty Down)"
    by (rule joinRoom_rejects_without_redis) (simp add: ex_empty_def)
  show ?thesis using a b c by simp
qed

section \<open>Chunk reassembly\<close>




section \<open>Room codes\<close>

lemma toString_six_digits:
  assumes "100000 \<le> n" and "n \<le> 999999"
  shows "length (toString n) = 6"
proof -
  have d: "n div 10 div 10 = n div 100" "n div 100 div 10 = n div 1000"
    "n div 1000 div 10 = n div 10000" "n div 10000 div 10 = n div 100000"
    by (simp_all add: div_mult2_eq)
  have "\<not> n < 10" "\<not> n div 10 < 10" "\<not> n div 100 < 10" "\<not> n div 1000 < 10"
    "\<not> n div 10000 < 10" "n div 100000 < 10"
    using assms by simp_all
  then show ?thesis
    by (simp add: toString.simps[of n] toString.simps[of "n div 10"]
        toString.simps[of "n div 100"] toString.simps[of "n div 1000"]
        toString.simps[of "n div 10000"] toString.simps[of "n div 100000"] d)
qed

text \<open>
  Claim C9, as the loop is written. \<^verbatim>\<open>createUniqueRoomCode\<close> draws a code, asks
  \<^verbatim>\<open>getRoomInfo\<close> whether it is known and repeats while it is; the loop
  \<^verbatim>\<open>while (exists)\<close> has no counter and no limit. So the function returns exactly when
  one of the codes drawn from round \<open>i\<close> on is unknown, and then it returns the first
  such code, leaving known what was known; when every code drawn is known it never
  returns. No exhaustion error exists. The format is fixed: a draw between 100000 and
  999999 gives a code of six digits.
\<close>

theorem createUniqueRoomCode_unbounded:
  "(createUniqueRoomCode now rnd i s = None) = (\<forall>k. known s (toString (rnd (i + k)))) \<and>
   (\<not> known s (toString (rnd (i + k))) \<longrightarrow> (\<forall>j<k. known s (toString (rnd (i + j)))) \<longrightarrow>
      (\<exists>s'. createUniqueRoomCode now rnd i s = Some (toString (rnd (i + k)), s') \<and>
            (\<forall>d. known s' d = known s d))) \<and>
   (100000 \<le> rnd (i + k) \<and> rnd (i + k) \<le> 999999 \<longrightarrow>
      length (toString (rnd (i + k))) = 6)"
proof (intro conjI impI)
  show "(createUniqueRoomCode now rnd i s = None) = (\<forall>k. known s (toString (rnd (i + k))))"
  proof
    assume none: "createUniqueRoomCode now rnd i s = None"
    show "\<forall>k. known s (toString (rnd (i + k)))"
    proof (rule ccontr)
      assume "\<not> (\<forall>k. known s (toString (rnd (i + k))))"
      then have "\<exists>k. \<not> known s (toString (rnd (i + k)))" by simp
      then obtain k where "\<not> known s (toString (rnd (i + k)))"
        and "\<forall>j<k. \<not> \<not> known s (toString (rnd (i + j)))"
        unfolding exists_least_iff[of "\<lambda>k. \<not> known s (toString (rnd (i + k)))"] by blast
      then have "\<exists>s'. createUniqueRoomCode now rnd i s = Some (toString (rnd (i + k)), s') \<and>
                   (\<forall>d. known s' d = known s d)"
        by (intro createUniqueRoomCode_found) simp_all
      with none show False by simp
    qed
  next
    assume all: "\<forall>k. known s (toString (rnd (i + k)))"
    show "createUniqueRoomCode now rnd i s = None"
    proof (rule ccontr)
      assume "createUniqueRoomCode now rnd i s \<noteq> None"
      then obtain y where "createUniqueRoomCode now rnd i s = Some y" by blast
      then have "\<exists>k. \<not> known s (toString (rnd (i + k)))"
        by (rule createUniqueRoomCode_Some_unused)
      with all show False by simp
    qed
  qed
next
  assume "\<not> known s (toString (rnd (i + k)))" and "\<forall>j<k. known s (toString (rnd (i + j)))"
  then show "\<exists>s'. createUniqueRoomCode now rnd i s = Some (toString (rnd (i + k)), s') \<and>
                 (\<forall>d. known s' d = known s d)"
    by (rule createUniqueRoomCode_found)
next
  assume "100000 \<le> rnd (i + k) \<and> rnd (i + k) \<le> 999999"
  then show "length (toString (rnd (i + k))) = 6"
    by (simp add: toString_six_digits)
qed

theorem createUniqueRoomCode_unbounded_witness:
  "createUniqueRoomCode 0 ex_rnd 0 (ex_server Down (JBool True)) \<noteq> None \<and>
   (\<exists>s'. createUniqueRoomCode 0 ex_rnd 0 (ex_server Down (JBool True)) = Some (''100002'', s')) \<and>
   length (toString (ex_rnd 2)) = 6"
proof -
  have t1: "toString 482913 = ''482913''" and t2: "toString 100002 = ''100002''"
    by (simp_all add: toString.simps)
  have k1: "known (ex_server Down (JBool True)) ''482913''"
    by (simp add: known_def room_of_def ex_server_def)
  have k2: "\<not> known (ex_server Down (JBool True)) ''100002''"
    by (simp add: known_def room_of_def ex_server_def)
  have unused: "\<not> known (ex_server Down (JBool True)) (toString (ex_rnd (0 + 2)))"
    by (simp add: ex_rnd_def t2 k2)
  have used: "\<forall>j<2. known (ex_server Down (JBool True)) (toString (ex_rnd (0 + j)))"
    by (simp add: ex_rnd_def t1 k1)
  from createUniqueRoomCode_unbounded [of 0 ex_rnd 0 "ex_server Down (JBool True)" 2]
    unused used
  show ?thesis by (auto simp: ex_rnd_def t2)
qed

text \<open>
  When every draw hits the existing room \<open>482913\<close> the loop never ends: no retry limit
  stops it and no error is raised.
\<close>

theorem createUniqueRoomCode_no_retry_limit_counterexample:
  "createUniqueRoomCode 0 ex_rnd_stuck 0 (ex_server Down (JBool True)) = None"
proof (rule ccontr)
  assume "createUniqueRoomCode 0 ex_rnd_stuck 0 (ex_server Down (JBool True)) \<noteq> None"
  then obtain y where
    "createUniqueRoomCode 0 ex_rnd_stuck 0 (ex_server Down (JBool True)) = Some y"
    by blast
  then have "\<exists>k. \<not> known (ex_server Down (JBool True)) (toString (ex_rnd_stuck (0 + k)))"
    by (rule createUniqueRoomCode_Some_unused)
  moreover have "toString 482913 = ''482913''"
    by (simp add: toString.simps)
  moreover have "known (ex_server Down (JBool True)) ''482913''"
    by (simp add: known_def room_of_def ex_server_def)
  ultimately show False
    by (simp add: ex_rnd_stuck_def)
qed

section \<open>The permission gate on strokes\<close>

lemma ex_server_joined:
  "joinedRoom (ex_server m en) ''A'' = Some ''482913''"
  "joinedRoom (ex_server m en) ''B'' = Some ''482913''"
  "joinedRoom (ex_server m en) ''Z'' = None"
  "room_of (ex_server m en) ''482913'' = Some (ex_room en)"
  by (simp_all add: joinedRoom_def room_of_def ex_server_def)




text \<open>What the page route and the two joins leave behind, whatever the state of Redis.\<close>

lemma ex_http_joined:
  "joinedRoom (ex_http m) ''A'' = Some ''482913''"
  "joinedRoom (ex_http m) ''B'' = Some ''482913''"
  "room_of (ex_http m) ''482913'' =
     Some \<lparr>createdAt = 1000, lastActive = 2000, users = 2, creatorId = JUndefined,
           drawingEnabled = JUndefined\<rparr>"
  "adapter (ex_http m) ''482913'' = [''A'', ''B'']"
  "redisMode (ex_http m) = m"
  by (cases m;
      simp add: ex_http_def joinRoom_def leavePrevious_def enterRoom_unfold http_room_def
        ex_empty_def joinedRoom_def getRoomInfo_def room_of_def set_room_def createRoom_def
        socket_join_def updateRoomInfo_def actualUsers_def loadHistory_def Let_def)+





subsection \<open>The flag after a restart, and the creator known by its header\<close>

text \<open>
  \<^verbatim>\<open>toggleDrawing\<close> writes the flag to Redis as the text \<^verbatim>\<open>'true'\<close> or \<^verbatim>\<open>'false'\<close>, and the
  \<^verbatim>\<open>joinRoom\<close> listener and \<^verbatim>\<open>getRoomInfo\<close> put the hash they read into the cache with the
  three numbers parsed and the flag as it comes. The gate compares the flag with the
  boolean \<^verbatim>\<open>false\<close>, so it does not fire on a room read back from Redis.
\<close>

lemma toggleDrawing_stores_text:
  assumes "joinedRoom s sock = Some cur" and "room_of s cur = Some roomInfo"
    and "isCreator s sock roomInfo" and "redisMode s = Up"
  shows "map_option drawingEnabled (room_of (fst (toggleDrawing sock (JBool False) s)) cur) =
           Some (JBool False)"
    and "map_option h_drawingEnabled (hashes (redis (fst (toggleDrawing sock (JBool False) s))) cur) =
           Some (Some ''false'')"
  using assms
  by (simp_all add: toggleDrawing_def Let_def room_of_set_room hSet_def truthy.simps
      split: option.splits)

lemma roomData_keeps_text:
  "drawingEnabled (roomData now h) = field_val (h_drawingEnabled h)"
  "h_drawingEnabled h = Some ''false'' \<Longrightarrow> drawingEnabled (roomData now h) \<noteq> JBool False"
  by (simp_all add: roomData_def field_val_def)

text \<open>
  The room of \<open>A\<close>, in which \<open>A\<close> switched drawing off, after a restart: while the process
  that saw the switch runs, the flag is the boolean; in the next one it is the text
  \<^verbatim>\<open>'false'\<close>, \<^verbatim>\<open>roomJoined\<close> hands that text to \<open>B\<close>, and the stroke of \<open>B\<close>, who is not the
  creator, is sent to \<open>C\<close> and appended to the stroke log.
\<close>

lemma ex_toggled_state:
  "room_of ex_toggled ''482913'' =
     Some \<lparr>createdAt = 1000, lastActive = 1000, users = 1, creatorId = JStr ''A'',
           drawingEnabled = JBool False\<rparr>"
  "hashes (redis ex_toggled) ''482913'' =
     Some \<lparr>h_createdAt = Some 1000, h_lastActive = Some 1000, h_users = Some 0,
           h_creatorId = Some ''A'', h_drawingEnabled = Some ''false''\<rparr>"
  "redisMode ex_toggled = Up"
  "\<not> joinRoom_rejects 1000 ''A'' ''482913'' (ex_empty Up)"
  by (simp_all add: ex_toggled_def joinRoom_rejects_def joinRoom_usersList_def scenario_simps)

lemma ex_reloaded_state:
  "enterRoom_probe ''482913'' (restart ex_toggled) = Awaited True"
  "\<not> joinRoom_usersList ''482913'' (restart ex_toggled)"
  "room_of ex_reloaded ''482913'' =
     Some \<lparr>createdAt = 1000, lastActive = 2000, users = 2, creatorId = JStr ''A'',
           drawingEnabled = JStr ''false''\<rparr>"
  "adapter ex_reloaded ''482913'' = [''B'', ''C'']"
  "joinedRoom ex_reloaded ''B'' = Some ''482913''"
  "creatorHeader ex_reloaded ''B'' = JUndefined"
  "redisMode ex_reloaded = Up"
  "lRange_points (redis ex_reloaded) ''482913'' = []"
  by (simp_all add: ex_reloaded_def ex_toggled_def restart_def joinRoom_usersList_def scenario_simps)

lemma draw_after_restart_not_gated:
  "map_option drawingEnabled (room_of ex_toggled ''482913'') = Some (JBool False) \<and>
   map_option drawingEnabled (room_of ex_reloaded ''482913'') = Some (JStr ''false'') \<and>
   map_option creatorId (room_of ex_reloaded ''482913'') = Some (JStr ''A'') \<and>
   snd (enterRoom_resume 2000 ''B'' ''482913'' (Awaited True) (restart ex_toggled)) =
     [(ToRoom ''482913'', UserCountUpdated 1),
      (ToSocket ''B'', RoomJoined ''482913'' ''B'' 1 False (JStr ''false'')),
      (ToRoomExcept ''482913'' ''B'', UserJoined ''B'' 1),
      (ToSocket ''B'', LoadDrawing [])] \<and>
   snd (draw ''B'' ex_stroke ex_reloaded) = [(ToRoomExcept ''482913'' ''B'', Draw ex_stroke)] \<and>
   recipients (fst (draw ''B'' ex_stroke ex_reloaded)) (ToRoomExcept ''482913'' ''B'') = [''C''] \<and>
   lRange_points (redis (fst (draw ''B'' ex_stroke ex_reloaded))) ''482913'' = [ex_stroke]"
proof -
  have j: "snd (enterRoom_resume 2000 ''B'' ''482913'' (Awaited True) (restart ex_toggled)) =
             [(ToRoom ''482913'', UserCountUpdated 1),
              (ToSocket ''B'', RoomJoined ''482913'' ''B'' 1 False (JStr ''false'')),
              (ToRoomExcept ''482913'' ''B'', UserJoined ''B'' 1),
              (ToSocket ''B'', LoadDrawing [])]"
    by (simp add: ex_toggled_def restart_def scenario_simps)
  have d: "draw ''B'' ex_stroke ex_reloaded =
             (saveDrawingPoint ''482913'' ex_stroke ex_reloaded,
              [(ToRoomExcept ''482913'' ''B'', Draw ex_stroke)])"
    by (simp add: draw_def ex_reloaded_state)
  have p: "lRange_points (redis (saveDrawingPoint ''482913'' ex_stroke ex_reloaded)) ''482913'' =
             [ex_stroke]"
    using ex_reloaded_state(8)
    by (simp add: saveDrawingPoint_def ex_reloaded_state(7) lRange_points_def rPush_points_def
        expire_def split: option.splits)
  have a: "adapter (saveDrawingPoint ''482913'' ex_stroke ex_reloaded) ''482913'' = [''B'', ''C'']"
    by (simp add: saveDrawingPoint_def ex_reloaded_state)
  show ?thesis
    by (simp add: j d p a ex_toggled_state ex_reloaded_state)
qed

text \<open>
  \<^verbatim>\<open>toggleDrawing\<close> and \<^verbatim>\<open>clearCanvas\<close> take a connection for the creator when its socket id
  or its header \<^verbatim>\<open>x-creator-id\<close> is the \<open>creatorId\<close>; the gate of \<^verbatim>\<open>draw\<close> looks at the
  socket id only. In the room made for a token, \<open>A\<close> carries the token: it may switch
  drawing off and on, and while drawing is off its own stroke is dropped like anybody's.
\<close>

lemma ex_token_state:
  "room_of ex_token ''482913'' =
     Some \<lparr>createdAt = 1000, lastActive = 1200, users = 2,
           creatorId = JStr ''10.0.0.1-1000'', drawingEnabled = JBool False\<rparr>"
  "joinedRoom ex_token ''A'' = Some ''482913''"
  "creatorHeader ex_token ''A'' = JStr ''10.0.0.1-1000''"
  "adapter ex_token ''482913'' = [''A'', ''B'']"
  by (simp_all add: ex_token_def scenario_simps)

lemma draw_of_header_creator_dropped:
  "isCreator ex_token ''A'' \<lparr>createdAt = 1000, lastActive = 1200, users = 2,
      creatorId = JStr ''10.0.0.1-1000'', drawingEnabled = JBool False\<rparr> \<and>
   snd (toggleDrawing ''A'' (JBool True) ex_token) =
     [(ToRoom ''482913'', DrawingPermissionChanged (JBool True) ''A'')] \<and>
   draw ''A'' ex_stroke ex_token = (ex_token, [])"
  by (simp add: draw_def toggleDrawing_def isCreator_def ex_token_state Let_def)
    (simp add: ex_token_def scenario_simps)

section \<open>When Redis is not available\<close>

text \<open>Whenever Redis is not up, a member's image is refused and reaches nobody.\<close>

lemma pasteImage_not_up:
  "redisMode s \<noteq> Up \<Longrightarrow> joinedRoom s sock = Some cur \<Longrightarrow>
   pasteImage now sock img s = (s, [(ToSocket sock, Error ErrImageSave)])"
  by (simp add: pasteImage_def saveImage_def Let_def)

text \<open>
  Claim C5 at the input where the code departs from it. Without Redis \<^verbatim>\<open>saveImage\<close>
  answers \<^verbatim>\<open>false\<close>, and \<^verbatim>\<open>pasteImage\<close> then sends \<^verbatim>\<open>error\<close> to the sender and sends the
  image to nobody; a stroke in the same state is sent on to the room without any error.
\<close>

theorem pasteImage_without_redis:
  "pasteImage 5000 ''A'' ex_image (ex_server Down (JBool True)) =
     (ex_server Down (JBool True), [(ToSocket ''A'', Error ErrImageSave)]) \<and>
   draw ''A'' ex_stroke (ex_server Down (JBool True)) =
     (ex_server Down (JBool True), [(ToRoomExcept ''482913'' ''A'', Draw ex_stroke)])"
  by (simp add: pasteImage_def draw_def ex_server_joined saveImage_def saveDrawingPoint_def
      ex_image_def ex_room_def)
    (simp add: ex_server_def)

section \<open>Operations of a connection that is in no room\<close>

text \<open>
  Claim C8, as the listeners implement it. For a connection that has joined no room,
  \<^verbatim>\<open>requestImageData\<close>, \<^verbatim>\<open>imageChunk\<close>, \<^verbatim>\<open>pasteImage\<close> and \<^verbatim>\<open>toggleDrawing\<close> answer with an
  \<^verbatim>\<open>error\<close> event to that connection; \<^verbatim>\<open>draw\<close>, \<^verbatim>\<open>clearCanvas\<close> and \<^verbatim>\<open>requestDrawingData\<close>
  return at once and send nothing. None of the seven changes the state or sends anything
  to another connection.
\<close>

theorem not_joined_operations:
  assumes "joinedRoom s sock = None"
  shows "requestImageData sock s = (s, [(ToSocket sock, Error ErrNotJoinedReload)]) \<and>
         imageChunk sock d s = (s, [(ToSocket sock, Error ErrNotJoinedReload)]) \<and>
         pasteImage now sock img s = (s, [(ToSocket sock, Error ErrNotJoinedReload)]) \<and>
         toggleDrawing sock en s = (s, [(ToSocket sock, Error ErrNotJoined)]) \<and>
         draw sock p s = (s, []) \<and>
         clearCanvas sock s = (s, []) \<and>
         requestDrawingData sock s = (s, [])"
  using assms
  by (simp add: requestImageData_def imageChunk_def pasteImage_def toggleDrawing_def draw_def
      clearCanvas_def requestDrawingData_def)

theorem not_joined_operations_witness:
  "requestImageData ''Z'' (ex_server Up (JBool True)) =
     (ex_server Up (JBool True), [(ToSocket ''Z'', Error ErrNotJoinedReload)]) \<and>
   toggleDrawing ''Z'' (JBool False) (ex_server Up (JBool True)) =
     (ex_server Up (JBool True), [(ToSocket ''Z'', Error ErrNotJoined)]) \<and>
   clearCanvas ''Z'' (ex_server Up (JBool True)) = (ex_server Up (JBool True), [])"
  using not_joined_operations
      [of "ex_server Up (JBool True)" "''Z''" "ex_chunk 0 ''a''" 5000 ex_image "JBool False"
          ex_stroke]
  by (simp add: ex_server_joined)

text \<open>A stroke from a connection that is in no room is ignored without any \<^verbatim>\<open>error\<close> event.\<close>

theorem draw_not_joined_silent_counterexample:
  "joinedRoom (ex_server Up (JBool True)) ''Z'' = None \<and>
   snd (draw ''Z'' ex_stroke (ex_server Up (JBool True))) = []"
  by (simp add: draw_def ex_server_joined)

section \<open>The creator of a room\<close>

text \<open>
  No listener and no route changes the \<open>creatorId\<close> of a room that is in the cache, as
  long as no other listener runs while a join waits for Redis: the join, the disconnect,
  the stroke, image and history listeners, the two controls of the creator and the page
  route all keep it.
\<close>

lemma creator_kept_refl [simp]: "creator_kept s s"
  by (simp add: creator_kept_def)

lemma creator_kept_trans: "creator_kept s s1 \<Longrightarrow> creator_kept s1 s2 \<Longrightarrow> creator_kept s s2"
  unfolding creator_kept_def by fastforce

lemma creator_kept_rooms: "rooms s' = rooms s \<Longrightarrow> creator_kept s s'"
  by (simp add: creator_kept_def room_of_def)

lemma creator_kept_updateRoomInfo: "creator_kept s (fst (updateRoomInfo now c s))"
  by (auto simp: creator_kept_def updateRoomInfo_def room_of_set_room split: option.splits)

lemma creator_kept_getRoomInfo: "creator_kept s (snd (getRoomInfo now c s))"
  by (auto simp: creator_kept_def getRoomInfo_def room_of_set_room split: option.splits)

lemma room_of_createRoom:
  "room_of (createRoom now c cr s) d =
     (if d = c then Some \<lparr>createdAt = now, lastActive = now, users = 0, creatorId = cr,
                          drawingEnabled = JBool True\<rparr> else room_of s d)"
  by (simp add: createRoom_def Let_def room_of_set_room)

lemma getRoomInfo_None_room: "fst (getRoomInfo now c s) = None \<Longrightarrow> room_of s c = None"
  by (auto simp: getRoomInfo_def split: option.splits if_splits)

lemma room_of_simps [simp]:
  "room_of (s\<lparr>userRooms := u\<rparr>) = room_of s"
  "room_of (s\<lparr>currentRoom := cu\<rparr>) = room_of s"
  "room_of (s\<lparr>adapter := a\<rparr>) = room_of s"
  "room_of (socket_join sock c s) = room_of s"
  "room_of (socket_leave sock c s) = room_of s"
  by (simp_all add: room_of_def fun_eq_iff socket_join_def socket_leave_def)

lemma creator_kept_leavePrevious: "creator_kept s (fst (leavePrevious now sock s))"
proof (cases "joinedRoom s sock")
  case None
  then show ?thesis by (simp add: leavePrevious_def)
next
  case (Some prev)
  have "creator_kept (socket_leave sock prev s) (fst (updateRoomInfo now prev (socket_leave sock prev s)))"
    by (rule creator_kept_updateRoomInfo)
  then show ?thesis using Some
    by (auto simp: leavePrevious_def creator_kept_def split: prod.splits)
qed

lemma creator_kept_enterRoom: "creator_kept s (fst (enterRoom now sock c s))"
proof -
  obtain found s1 where g: "getRoomInfo now c s = (found, s1)" by (cases "getRoomInfo now c s")
  have k1: "creator_kept s s1" using creator_kept_getRoomInfo[of s now c] g by simp
  define s2 where "s2 = (case found of None \<Rightarrow> createRoom now c (JStr sock) s1 | Some r \<Rightarrow> s1)"
  have k2: "creator_kept s s2"
  proof (cases found)
    case None
    then have "room_of s c = None" using getRoomInfo_None_room[of now c s] g by simp
    moreover have "s1 = s" using None g getRoomInfo_None_state[of now c s] by simp
    ultimately show ?thesis using None
      by (auto simp: s2_def creator_kept_def room_of_createRoom)
  next
    case (Some r)
    then show ?thesis using k1 by (simp add: s2_def)
  qed
  define s3 where "s3 = (socket_join sock c s2)
         \<lparr>currentRoom := (currentRoom s2)(sock \<mapsto> c), userRooms := (userRooms s2)(sock \<mapsto> c)\<rparr>"
  have k3: "creator_kept s s3" using k2 by (simp add: s3_def creator_kept_def)
  have "creator_kept s3 (fst (updateRoomInfo now c s3))" by (rule creator_kept_updateRoomInfo)
  with k3 have "creator_kept s (fst (updateRoomInfo now c s3))" by (rule creator_kept_trans)
  then show ?thesis using g
    by (auto simp: enterRoom_unfold Let_def s2_def[symmetric] s3_def[symmetric] split: prod.splits)
qed

lemma creator_kept_joinRoom: "creator_kept s (fst (joinRoom now sock c s))"
  using creator_kept_trans[OF creator_kept_leavePrevious[of s now sock]
      creator_kept_enterRoom[of "fst (leavePrevious now sock s)" now sock c]]
  by (auto simp: joinRoom_def split: prod.splits)

lemma creator_kept_disconnect: "creator_kept s (fst (disconnect now sock s))"
proof -
  define s0 where "s0 = s\<lparr>adapter := (\<lambda>c. removeAll sock (adapter s c))\<rparr>"
  show ?thesis
  proof (cases "joinedRoom s0 sock")
    case None
    then show ?thesis by (simp add: disconnect_def Let_def s0_def[symmetric]) (simp add: s0_def creator_kept_def)
  next
    case (Some cur)
    have "creator_kept (s0\<lparr>userRooms := (userRooms s0)(sock := None)\<rparr>)
            (fst (updateRoomInfo now cur (s0\<lparr>userRooms := (userRooms s0)(sock := None)\<rparr>)))"
      by (rule creator_kept_updateRoomInfo)
    then have "creator_kept s (fst (updateRoomInfo now cur (s0\<lparr>userRooms := (userRooms s0)(sock := None)\<rparr>)))"
      by (simp add: creator_kept_def s0_def)
    then show ?thesis using Some
      by (auto simp: disconnect_def Let_def s0_def[symmetric] split: prod.splits)
  qed
qed

lemma creator_kept_listeners:
  "creator_kept s (fst (draw sock p s))"
  "creator_kept s (fst (requestDrawingData sock s))"
  "creator_kept s (fst (imageChunk sock d s))"
  "creator_kept s (fst (pasteImage now sock img s))"
  "creator_kept s (fst (requestImageData sock s))"
  "creator_kept s (fst (toggleDrawing sock en s))"
  "creator_kept s (fst (clearCanvas sock s))"
  "creator_kept s (http_room now c s)"
  by (auto simp: creator_kept_def draw_def requestDrawingData_def imageChunk_def pasteImage_def
      requestImageData_def toggleDrawing_def clearCanvas_def http_room_def saveDrawingPoint_def
      saveImage_def clearImages_def clearDrawingPoints_def room_of_set_room Let_def
      split: option.splits redis_mode.splits)

text \<open>
  The \<^verbatim>\<open>joinRoom\<close> listener reads the cache, waits for \<^verbatim>\<open>exists\<close>, and creates the room
  when its local \<^verbatim>\<open>roomInfo\<close> is still empty. What the lemmas above say of the join holds
  when nothing runs during the wait. In general the rest of the listener keeps every
  \<open>creatorId\<close> when it found the room in the cache or when the room is still not cached as
  it resumes.
\<close>

lemma creator_kept_enterRoom_resume:
  assumes "(\<exists>r. p = Cached r) \<or> room_of s c = None"
  shows "creator_kept s (fst (enterRoom_resume now sock c p s))"
proof -
  define found where "found =
    (case p of
       Cached r \<Rightarrow> (Some r, s)
     | NotAsked \<Rightarrow> (None, s)
     | Awaited ex \<Rightarrow>
         if ex \<and> redisMode s = Up
         then (Some (roomData now (case hashes (redis s) c of
                                     None \<Rightarrow> empty_hash | Some h \<Rightarrow> h)),
               set_room c (roomData now (case hashes (redis s) c of
                                           None \<Rightarrow> empty_hash | Some h \<Rightarrow> h)) s)
         else (None, s))"
  obtain f s1 where g: "found = (f, s1)" by (cases found)
  define s2 where "s2 = (case f of None \<Rightarrow> createRoom now c (JStr sock) s1 | Some r \<Rightarrow> s1)"
  have k2: "creator_kept s s2"
    using assms g
    by (auto simp: found_def s2_def creator_kept_def room_of_createRoom room_of_set_room
        split: probe.splits if_splits option.splits)
  define s3 where "s3 = (socket_join sock c s2)
         \<lparr>currentRoom := (currentRoom s2)(sock \<mapsto> c), userRooms := (userRooms s2)(sock \<mapsto> c)\<rparr>"
  have k3: "creator_kept s s3" using k2 by (simp add: s3_def creator_kept_def)
  have "creator_kept s3 (fst (updateRoomInfo now c s3))" by (rule creator_kept_updateRoomInfo)
  with k3 have "creator_kept s (fst (updateRoomInfo now c s3))" by (rule creator_kept_trans)
  then show ?thesis using g
    by (auto simp: enterRoom_resume_def found_def[symmetric] Let_def s2_def[symmetric]
        s3_def[symmetric] split: prod.splits)
qed

text \<open>
  Two first joins of the same unknown code that overlap: with Redis up, \<open>A\<close> and \<open>B\<close> send
  \<^verbatim>\<open>joinRoom\<close> one right after the other, both listeners find the cache empty and wait,
  \<^verbatim>\<open>exists\<close> answers false to both, and the second listener of each finds the live set
  empty. \<open>A\<close> resumes, creates the room and is told that it is the creator; then \<open>B\<close>
  resumes, creates the room again over the one of \<open>A\<close>, and is told the same. The room
  keeps \<open>B\<close> as its \<open>creatorId\<close>.
\<close>

lemma overlapping_first_joins:
  "enterRoom_probe ''482913'' (ex_empty Up) = Awaited False \<and>
   \<not> joinRoom_usersList ''482913'' (ex_empty Up) \<and>
   snd (enterRoom_resume 1000 ''A'' ''482913'' (Awaited False) (ex_empty Up)) =
     [(ToRoom ''482913'', UserCountUpdated 1),
      (ToSocket ''A'', RoomJoined ''482913'' ''A'' 1 True (JBool True)),
      (ToRoomExcept ''482913'' ''A'', UserJoined ''A'' 1),
      (ToSocket ''A'', LoadDrawing [])] \<and>
   map_option creatorId
     (room_of (fst (enterRoom_resume 1000 ''A'' ''482913'' (Awaited False) (ex_empty Up)))
        ''482913'') = Some (JStr ''A'') \<and>
   snd (enterRoom_resume 1001 ''B'' ''482913'' (Awaited False)
          (fst (enterRoom_resume 1000 ''A'' ''482913'' (Awaited False) (ex_empty Up)))) =
     [(ToRoom ''482913'', UserCountUpdated 2),
      (ToSocket ''B'', RoomJoined ''482913'' ''B'' 2 True (JBool True)),
      (ToRoomExcept ''482913'' ''B'', UserJoined ''B'' 2),
      (ToSocket ''B'', LoadDrawing [])] \<and>
   map_option creatorId
     (room_of (fst (enterRoom_resume 1001 ''B'' ''482913'' (Awaited False)
          (fst (enterRoom_resume 1000 ''A'' ''482913'' (Awaited False) (ex_empty Up)))))
        ''482913'') = Some (JStr ''B'')"
  by (simp add: joinRoom_usersList_def scenario_simps)

lemma overlapping_first_joins_creator_not_kept:
  "\<not> creator_kept
       (fst (enterRoom_resume 1000 ''A'' ''482913'' (Awaited False) (ex_empty Up)))
       (fst (enterRoom_resume 1001 ''B'' ''482913'' (Awaited False)
          (fst (enterRoom_resume 1000 ''A'' ''482913'' (Awaited False) (ex_empty Up)))))"
proof -
  have a: "room_of (fst (enterRoom_resume 1000 ''A'' ''482913'' (Awaited False) (ex_empty Up)))
             ''482913'' =
           Some \<lparr>createdAt = 1000, lastActive = 1000, users = 1, creatorId = JStr ''A'',
                 drawingEnabled = JBool True\<rparr>"
    by (simp add: scenario_simps)
  have b: "room_of (fst (enterRoom_resume 1001 ''B'' ''482913'' (Awaited False)
             (fst (enterRoom_resume 1000 ''A'' ''482913'' (Awaited False) (ex_empty Up)))))
             ''482913'' =
           Some \<lparr>createdAt = 1001, lastActive = 1001, users = 2, creatorId = JStr ''B'',
                 drawingEnabled = JBool True\<rparr>"
    by (simp add: scenario_simps)
  show ?thesis
    unfolding creator_kept_def using a b by force
qed

text \<open>
  The two paths that name a creator: the first join of a code that is unknown, and the
  route \<^verbatim>\<open>/api/create-room\<close>. The page route names none.
\<close>

lemma enterRoom_first_join:
  assumes "\<not> known s c"
  shows "map_option creatorId (room_of (fst (enterRoom now sock c s)) c) = Some (JStr sock)"
proof -
  from assms have g: "getRoomInfo now c s = (None, s)"
    by (cases rule: getRoomInfo_cases[of s c now]) simp_all
  define s3 where "s3 = (socket_join sock c (createRoom now c (JStr sock) s))
         \<lparr>currentRoom := (currentRoom (createRoom now c (JStr sock) s))(sock \<mapsto> c),
          userRooms := (userRooms (createRoom now c (JStr sock) s))(sock \<mapsto> c)\<rparr>"
  have "map_option creatorId (room_of s3 c) = Some (JStr sock)"
    by (simp add: s3_def room_of_createRoom)
  then obtain r where r: "room_of s3 c = Some r" "creatorId r = JStr sock" by auto
  from creator_kept_updateRoomInfo[of s3 now c] r
  have "map_option creatorId (room_of (fst (updateRoomInfo now c s3)) c) = Some (JStr sock)"
    unfolding creator_kept_def by fastforce
  then show ?thesis using g
    by (auto simp: enterRoom_unfold Let_def s3_def[symmetric] split: prod.splits)
qed

lemma api_create_room_creator:
  assumes "api_create_room now ip rnd s = Some (c, token, s')"
  shows "map_option creatorId (room_of s' c) = Some (JStr token)"
  using assms
  by (auto simp: api_create_room_def room_of_createRoom split: option.splits)

lemma http_room_no_creator:
  "room_of s c = None \<Longrightarrow>
   room_of (http_room now c s) c =
     Some \<lparr>createdAt = now, lastActive = now, users = 0, creatorId = JUndefined,
           drawingEnabled = JUndefined\<rparr>"
  by (simp add: http_room_def Let_def room_of_set_room)

text \<open>
  Claim C2 at the input where the code departs from it. When the page route
  \<^verbatim>\<open>/room/:roomCode\<close> is the first to see a code, it makes a room object without
  \<open>creatorId\<close>. The first connection to join then finds the room in the cache, so the
  branch that makes the first joiner the creator is skipped: the room keeps
  \<open>creatorId = undefined\<close>, and \<^verbatim>\<open>roomJoined\<close> tells \<open>A\<close> that it is not the creator. The
  same join on a code that no route has seen makes \<open>A\<close> the creator.
\<close>

theorem http_room_leaves_creator_unset:
  "map_option creatorId (room_of (http_room 1000 ''482913'' (ex_empty Down)) ''482913'') =
     Some JUndefined \<and>
   map_option creatorId
     (room_of (fst (joinRoom 1500 ''A'' ''482913'' (http_room 1000 ''482913'' (ex_empty Down))))
        ''482913'') = Some JUndefined \<and>
   snd (joinRoom 1500 ''A'' ''482913'' (http_room 1000 ''482913'' (ex_empty Down))) ! 1 =
     (ToSocket ''A'', RoomJoined ''482913'' ''A'' 1 False JUndefined) \<and>
   map_option creatorId (room_of (ex_http Down) ''482913'') = Some JUndefined \<and>
   map_option creatorId
     (room_of (fst (joinRoom 1500 ''A'' ''482913'' (ex_empty Down))) ''482913'') =
     Some (JStr ''A'')"
  by (simp add: ex_http_joined)
    (simp add: joinRoom_def leavePrevious_def enterRoom_unfold http_room_def
      ex_empty_def joinedRoom_def getRoomInfo_def room_of_def set_room_def createRoom_def
      socket_join_def updateRoomInfo_def actualUsers_def loadHistory_def Let_def)

section \<open>Images and their replay\<close>

lemma imageChunk_state: "fst (imageChunk sock d s) = s"
  by (simp add: imageChunk_def split: option.splits)

text \<open>
  Claim C3 at the input where the code departs from it. Redis is up; \<open>A\<close> sends an image
  in three chunks, as \<^verbatim>\<open>sendImageInChunks\<close> does for a payload above the chunk size. The
  server relays each chunk to \<open>B\<close> and stores nothing, \<open>B\<close> reassembles the image, and
  \<open>C\<close>, who joins afterwards, gets the stroke log but no \<^verbatim>\<open>loadImages\<close>, and an empty list
  on \<^verbatim>\<open>requestImageData\<close>. A small image, which the sender emits as one \<^verbatim>\<open>pasteImage\<close>,
  is stored in the same state and replayed.
\<close>

theorem chunked_image_not_replayed:
  "sendImageInChunks_sized 1 ex_abc =
     [EmitImageChunk (ex_chunk 0 ''a''), EmitImageChunk (ex_chunk 1 ''b''),
      EmitImageChunk (ex_chunk 2 ''c'')] \<and>
   sendImageInChunks ex_image = [EmitPasteImage ex_image] \<and>
   imageChunk ''A'' (ex_chunk 0 ''a'') (ex_server Up (JBool True)) =
     (ex_server Up (JBool True), [(ToRoomExcept ''482913'' ''A'', ImageChunk (ex_chunk 0 ''a''))]) \<and>
   imageChunk ''A'' (ex_chunk 1 ''b'') (ex_server Up (JBool True)) =
     (ex_server Up (JBool True), [(ToRoomExcept ''482913'' ''A'', ImageChunk (ex_chunk 1 ''b''))]) \<and>
   imageChunk ''A'' (ex_chunk 2 ''c'') (ex_server Up (JBool True)) =
     (ex_server Up (JBool True), [(ToRoomExcept ''482913'' ''A'', ImageChunk (ex_chunk 2 ''c''))]) \<and>
   snd (deliver ''B'' Map.empty [ex_chunk 0 ''a'', ex_chunk 1 ''b'', ex_chunk 2 ''c'']) =
     [(''abc'', Some ex_meta)] \<and>
   snd (joinRoom 3000 ''C'' ''482913'' (ex_server Up (JBool True))) =
     [(ToRoom ''482913'', UserCountUpdated 3),
      (ToSocket ''C'', RoomJoined ''482913'' ''C'' 3 False (JBool True)),
      (ToRoomExcept ''482913'' ''C'', UserJoined ''C'' 3),
      (ToSocket ''C'', LoadDrawing [])] \<and>
   snd (requestImageData ''C'' (fst (joinRoom 3000 ''C'' ''482913'' (ex_server Up (JBool True))))) =
     [(ToSocket ''C'', LoadImages [])] \<and>
   snd (requestImageData ''C''
         (fst (joinRoom 3000 ''C'' ''482913''
           (fst (pasteImage 2500 ''A'' ex_image (ex_server Up (JBool True))))))) =
     [(ToSocket ''C'', LoadImages [ex_image])]"
proof -
  have sent: "sendImageInChunks_sized 1 ex_abc =
     [EmitImageChunk (ex_chunk 0 ''a''), EmitImageChunk (ex_chunk 1 ''b''),
      EmitImageChunk (ex_chunk 2 ''c'')]"
    by (simp add: sendImageInChunks_sized_def ex_abc_def ex_chunk_def ex_meta_def
        substring_def Let_def upt_rec numeral_3_eq_3 numeral_2_eq_2)
  have small: "sendImageInChunks ex_image = [EmitPasteImage ex_image]"
    by (simp add: sendImageInChunks_def sendImageInChunks_sized_def MAX_CHUNK_SIZE_def
        ex_image_def Let_def)
  have chunks: "\<And>d. imageChunk ''A'' d (ex_server Up (JBool True)) =
      (ex_server Up (JBool True), [(ToRoomExcept ''482913'' ''A'', ImageChunk d)])"
    by (simp add: imageChunk_def ex_server_joined)
  have recv: "snd (deliver ''B'' Map.empty [ex_chunk 0 ''a'', ex_chunk 1 ''b'', ex_chunk 2 ''c'']) =
      [(''abc'', Some ex_meta)]"
    by (simp add: ex_chunk_def onImageChunk_def js_array_set_def js_join_def Let_def
        numeral_3_eq_3 numeral_2_eq_2)
  have join: "snd (joinRoom 3000 ''C'' ''482913'' (ex_server Up (JBool True))) =
     [(ToRoom ''482913'', UserCountUpdated 3),
      (ToSocket ''C'', RoomJoined ''482913'' ''C'' 3 False (JBool True)),
      (ToRoomExcept ''482913'' ''C'', UserJoined ''C'' 3),
      (ToSocket ''C'', LoadDrawing [])]"
    by (simp add: joinRoom_def leavePrevious_def enterRoom_unfold ex_server_def ex_room_def
        ex_redis_def joinedRoom_def getRoomInfo_def room_of_def set_room_def socket_join_def
        updateRoomInfo_def actualUsers_def loadHistory_def lRange_points_def lRange_images_def
        Let_def)
  have req: "snd (requestImageData ''C''
        (fst (joinRoom 3000 ''C'' ''482913'' (ex_server Up (JBool True))))) =
      [(ToSocket ''C'', LoadImages [])]"
    by (simp add: requestImageData_def getImages_def joinRoom_def leavePrevious_def
        enterRoom_unfold ex_server_def ex_room_def
        ex_redis_def joinedRoom_def getRoomInfo_def room_of_def set_room_def socket_join_def
        updateRoomInfo_def actualUsers_def loadHistory_def lRange_points_def lRange_images_def
        Let_def)
  have direct: "snd (requestImageData ''C''
         (fst (joinRoom 3000 ''C'' ''482913''
           (fst (pasteImage 2500 ''A'' ex_image (ex_server Up (JBool True))))))) =
     [(ToSocket ''C'', LoadImages [ex_image])]"
    by (simp add: requestImageData_def getImages_def joinRoom_def leavePrevious_def
        enterRoom_unfold pasteImage_def saveImage_def rPush_images_def expire_def r_exists_def
        ex_server_def ex_room_def ex_image_def
        ex_redis_def joinedRoom_def getRoomInfo_def room_of_def set_room_def socket_join_def
        updateRoomInfo_def actualUsers_def loadHistory_def lRange_points_def lRange_images_def
        Let_def)
  show ?thesis
    by (simp only: sent small chunks recv join req direct simp_thms)
qed

section \<open>The sweep of inactive rooms\<close>

text \<open>
  With Redis up, the sweep deletes a room without members that has been inactive for more
  than an hour, from the cache and from Redis, and it keeps a room that was active within
  the hour. Without Redis it deletes no room at all.
\<close>

lemma reconcileRoom_mode [simp]: "redisMode (fst (reconcileRoom now c s)) = redisMode s"
  by (simp add: reconcileRoom_unfold Let_def split: option.splits)

lemma forRooms_reconcile_room:
  "redisMode (fst (forRooms (reconcileRoom now) cs s)) = redisMode s \<and>
   room_of (fst (forRooms (reconcileRoom now) cs s)) d =
     (if d \<in> set cs then map_option (\<lambda>r. r\<lparr>users := int (actualUsers s d)\<rparr>) (room_of s d)
      else room_of s d)"
proof (induction cs arbitrary: s)
  case Nil
  show ?case by simp
next
  case (Cons c cs)
  obtain s1 e1 where r: "reconcileRoom now c s = (s1, e1)" by (cases "reconcileRoom now c s")
  have a1: "actualUsers s1 = actualUsers s"
    using reconcileRoom_adapter[of now c s] r by (simp add: actualUsers_def fun_eq_iff)
  have m1: "redisMode s1 = redisMode s" using reconcileRoom_mode[of now c s] r by simp
  have r1: "room_of s1 d =
     (if d = c then map_option (\<lambda>r. r\<lparr>users := int (actualUsers s c)\<rparr>) (room_of s c)
      else room_of s d)"
    using reconcileRoom_room[of now c s d] r by simp
  from Cons.IH[of s1] a1 m1 r1 r show ?case
    by (cases "room_of s d") (auto split: prod.splits)
qed

lemma evictRoom_mode [simp]: "redisMode (evictRoom now c s) = redisMode s"
  by (simp add: evictRoom_def split: option.splits)

lemma evictRoom_other: "d \<noteq> c \<Longrightarrow> room_of (evictRoom now c s) d = room_of s d"
  by (simp add: evictRoom_def room_of_delete_room split: option.splits)

lemma evictRoom_not_up: "redisMode s \<noteq> Up \<Longrightarrow> evictRoom now c s = s"
  by (simp add: evictRoom_def split: option.splits)

lemma fold_evictRoom_not_up: "redisMode s \<noteq> Up \<Longrightarrow> fold (evictRoom now) cs s = s"
  by (induction cs arbitrary: s) (simp_all add: evictRoom_not_up)

lemma evictRoom_keeps:
  "room_of s d = Some r \<Longrightarrow> \<not> (users r \<le> 0 \<and> now - lastActive r > 60 * 60 * 1000) \<Longrightarrow>
   room_of (evictRoom now c s) d = Some r"
  by (cases "d = c") (auto simp: evictRoom_def room_of_delete_room split: option.splits)

lemma fold_evictRoom_keeps:
  "room_of s d = Some r \<Longrightarrow> \<not> (users r \<le> 0 \<and> now - lastActive r > 60 * 60 * 1000) \<Longrightarrow>
   room_of (fold (evictRoom now) cs s) d = Some r"
  by (induction cs arbitrary: s) (simp_all add: evictRoom_keeps)

lemma fold_evictRoom_None:
  "room_of s d = None \<Longrightarrow> room_of (fold (evictRoom now) cs s) d = None"
  using fold_evictRoom[of now cs s] by (cases "room_of (fold (evictRoom now) cs s) d") auto

lemma evictRoom_deletes:
  "redisMode s = Up \<Longrightarrow> room_of s d = Some r \<Longrightarrow> users r \<le> 0 \<Longrightarrow>
   now - lastActive r > 60 * 60 * 1000 \<Longrightarrow> room_of (evictRoom now d s) d = None"
  by (simp add: evictRoom_def room_of_delete_room)

lemma fold_evictRoom_deletes:
  "redisMode s = Up \<Longrightarrow> d \<in> set cs \<Longrightarrow> room_of s d = Some r \<Longrightarrow> users r \<le> 0 \<Longrightarrow>
   now - lastActive r > 60 * 60 * 1000 \<Longrightarrow> room_of (fold (evictRoom now) cs s) d = None"
proof (induction cs arbitrary: s)
  case Nil
  then show ?case by simp
next
  case (Cons c cs)
  show ?case
  proof (cases "c = d")
    case True
    with Cons.prems have "room_of (evictRoom now c s) d = None"
      by (simp add: evictRoom_deletes)
    then show ?thesis by (simp add: fold_evictRoom_None)
  next
    case False
    with Cons.prems have "d \<in> set cs" "room_of (evictRoom now c s) d = Some r"
      "redisMode (evictRoom now c s) = Up"
      by (simp_all add: evictRoom_other)
    with Cons.IH[of "evictRoom now c s"] Cons.prems show ?thesis by simp
  qed
qed

lemma sweep_evicts_when_up:
  assumes "redisMode s = Up" and "room_of s c = Some r" and "adapter s c = []"
    and "now - lastActive r > 60 * 60 * 1000"
  shows "room_of (fst (sweep now s)) c = None"
proof -
  obtain s1 e where f: "forRooms (reconcileRoom now) (map fst (rooms s)) s = (s1, e)"
    by (cases "forRooms (reconcileRoom now) (map fst (rooms s)) s")
  have c_in: "c \<in> set (map fst (rooms s))" using assms(2) room_of_keys[of s c] by simp
  from forRooms_reconcile_room[of now "map fst (rooms s)" s c] f c_in assms
  have m1: "redisMode s1 = Up" and r1: "room_of s1 c = Some (r\<lparr>users := 0\<rparr>)"
    by (simp_all add: actualUsers_def)
  from r1 have "c \<in> set (map fst (rooms s1))" using room_of_keys[of s1 c] by simp
  with m1 r1 assms(4) have "room_of (fold (evictRoom now) (map fst (rooms s1)) s1) c = None"
    by (intro fold_evictRoom_deletes[where r = "r\<lparr>users := 0\<rparr>"]) simp_all
  then show ?thesis using f by (simp add: sweep_def)
qed

lemma sweep_retains_recent:
  assumes "room_of s c = Some r" and "now - lastActive r \<le> 60 * 60 * 1000"
  shows "room_of (fst (sweep now s)) c = Some (r\<lparr>users := int (actualUsers s c)\<rparr>)"
proof -
  obtain s1 e where f: "forRooms (reconcileRoom now) (map fst (rooms s)) s = (s1, e)"
    by (cases "forRooms (reconcileRoom now) (map fst (rooms s)) s")
  have c_in: "c \<in> set (map fst (rooms s))" using assms(1) room_of_keys[of s c] by simp
  from forRooms_reconcile_room[of now "map fst (rooms s)" s c] f c_in assms
  have r1: "room_of s1 c = Some (r\<lparr>users := int (actualUsers s c)\<rparr>)"
    by simp
  with assms(2) have "room_of (fold (evictRoom now) (map fst (rooms s1)) s1) c =
      Some (r\<lparr>users := int (actualUsers s c)\<rparr>)"
    by (intro fold_evictRoom_keeps) simp_all
  then show ?thesis using f by (simp add: sweep_def)
qed

lemma sweep_never_evicts_without_redis:
  assumes "redisMode s \<noteq> Up" and "room_of s c = Some r"
  shows "room_of (fst (sweep now s)) c = Some (r\<lparr>users := int (actualUsers s c)\<rparr>)"
proof -
  obtain s1 e where f: "forRooms (reconcileRoom now) (map fst (rooms s)) s = (s1, e)"
    by (cases "forRooms (reconcileRoom now) (map fst (rooms s)) s")
  have c_in: "c \<in> set (map fst (rooms s))" using assms(2) room_of_keys[of s c] by simp
  from forRooms_reconcile_room[of now "map fst (rooms s)" s c] f c_in assms
  have m1: "redisMode s1 \<noteq> Up" and r1: "room_of s1 c = Some (r\<lparr>users := int (actualUsers s c)\<rparr>)"
    by simp_all
  from m1 have "fold (evictRoom now) (map fst (rooms s1)) s1 = s1"
    by (rule fold_evictRoom_not_up)
  with r1 show ?thesis using f by (simp add: sweep_def)
qed


lemma evictRoom_store:
  "\<not> in_store (redis s) d \<Longrightarrow> \<not> in_store (redis (evictRoom now c s)) d"
  by (auto simp: evictRoom_def in_store_def del_def split: option.splits)

lemma fold_evictRoom_store:
  "\<not> in_store (redis s) d \<Longrightarrow> \<not> in_store (redis (fold (evictRoom now) cs s)) d"
  by (induction cs arbitrary: s) (simp_all add: evictRoom_store)

lemma evictRoom_deletes_store:
  "redisMode s = Up \<Longrightarrow> room_of s d = Some r \<Longrightarrow> users r \<le> 0 \<Longrightarrow>
   now - lastActive r > 60 * 60 * 1000 \<Longrightarrow> \<not> in_store (redis (evictRoom now d s)) d"
  by (simp add: evictRoom_def in_store_def del_def)

lemma fold_evictRoom_deletes_store:
  "redisMode s = Up \<Longrightarrow> d \<in> set cs \<Longrightarrow> room_of s d = Some r \<Longrightarrow> users r \<le> 0 \<Longrightarrow>
   now - lastActive r > 60 * 60 * 1000 \<Longrightarrow> \<not> in_store (redis (fold (evictRoom now) cs s)) d"
proof (induction cs arbitrary: s)
  case Nil
  then show ?case by simp
next
  case (Cons c cs)
  show ?case
  proof (cases "c = d")
    case True
    with Cons.prems have "\<not> in_store (redis (evictRoom now c s)) d"
      by (simp add: evictRoom_deletes_store)
    then show ?thesis by (simp add: fold_evictRoom_store)
  next
    case False
    with Cons.prems have "d \<in> set cs" "room_of (evictRoom now c s) d = Some r"
      "redisMode (evictRoom now c s) = Up"
      by (simp_all add: evictRoom_other)
    with Cons.IH[of "evictRoom now c s"] Cons.prems show ?thesis by simp
  qed
qed

lemma sweep_evicts_store_when_up:
  assumes "redisMode s = Up" and "room_of s c = Some r" and "adapter s c = []"
    and "now - lastActive r > 60 * 60 * 1000"
  shows "\<not> in_store (redis (fst (sweep now s))) c"
proof -
  obtain s1 e where f: "forRooms (reconcileRoom now) (map fst (rooms s)) s = (s1, e)"
    by (cases "forRooms (reconcileRoom now) (map fst (rooms s)) s")
  have c_in: "c \<in> set (map fst (rooms s))" using assms(2) room_of_keys[of s c] by simp
  from forRooms_reconcile_room[of now "map fst (rooms s)" s c] f c_in assms
  have m1: "redisMode s1 = Up" and r1: "room_of s1 c = Some (r\<lparr>users := 0\<rparr>)"
    by (simp_all add: actualUsers_def)
  from r1 have "c \<in> set (map fst (rooms s1))" using room_of_keys[of s1 c] by simp
  with m1 r1 assms(4)
  have "\<not> in_store (redis (fold (evictRoom now) (map fst (rooms s1)) s1)) c"
    by (intro fold_evictRoom_deletes_store[where r = "r\<lparr>users := 0\<rparr>"]) simp_all
  then show ?thesis using f by (simp add: sweep_def)
qed

text \<open>
  Claim C7 at the input where the code departs from it. Room \<open>482913\<close> has no member and
  was last active at time 0. At 61 minutes the sweep deletes it when Redis is up; without
  Redis the first \<^verbatim>\<open>del\<close> throws, \<^verbatim>\<open>delete rooms[roomCode]\<close> is not reached, and the room
  stays in the cache. At 59 minutes it is kept, as it should be.
\<close>

theorem sweep_keeps_inactive_room_without_redis:
  "room_of (fst (sweep (61 * 60 * 1000) (ex_idle Down))) ''482913'' =
     room_of (ex_idle Down) ''482913'' \<and>
   room_of (ex_idle Down) ''482913'' \<noteq> None \<and>
   room_of (fst (sweep (61 * 60 * 1000) (ex_idle Faulty))) ''482913'' \<noteq> None \<and>
   room_of (fst (sweep (61 * 60 * 1000) (ex_idle Up))) ''482913'' = None \<and>
   redis (fst (sweep (61 * 60 * 1000) (ex_idle Up))) = ex_redis \<and>
   room_of (fst (sweep (59 * 60 * 1000) (ex_idle Up))) ''482913'' \<noteq> None"
  by (simp add: sweep_def reconcileRoom_unfold evictRoom_def room_of_def ex_idle_def
      actualUsers_def delete_room_def del_def ex_redis_def)

section \<open>Member counts sent to the clients\<close>

text \<open>
  Claim C6, as the code implements it. Every member count sent by a listener is the size
  of the live set of the room at the time it is sent: in the two parts of \<^verbatim>\<open>joinRoom\<close>
  (leaving the previous room, which sends \<^verbatim>\<open>userCountUpdated\<close>, and the part that runs
  after the wait for \<^verbatim>\<open>exists\<close>, whatever ran during the wait, which sends
  \<^verbatim>\<open>userCountUpdated\<close>, \<^verbatim>\<open>roomJoined\<close> and \<^verbatim>\<open>userJoined\<close>), in \<^verbatim>\<open>disconnect\<close> (\<^verbatim>\<open>userLeft\<close>) and in
  \<^verbatim>\<open>updateRoomInfo\<close>; each of them reads the live set and sends in one go. The sweep reads
  the size of the live set, waits for Redis, and then sends the number it read: that
  number is the size of the live set at the time it is sent exactly when the live set of
  the room has the same size as before the wait. That is so without a Redis client, where
  nothing is awaited, and whenever no listener runs during the wait. And after any
  sequence of joins and disconnects that the process survives, followed by a sweep during
  which no listener runs, the cached counter of every room that remains is the size of
  its live set.
\<close>

theorem member_counts_live_when_read:
  "counts_live (leavePrevious now sock s) \<and>
   counts_live (enterRoom_resume now sock c p s) \<and>
   counts_live (disconnect now sock s) \<and>
   counts_live (updateRoomInfo now c s) \<and>
   (snd (reconcile_read c s) = Some (n, ex) \<longrightarrow>
      n = actualUsers s c \<and>
      actualUsers (fst (reconcile_read c s)) c = n \<and>
      snd (reconcile_write now c (n, ex) s2) = [(ToRoom c, UserCountUpdated n)] \<and>
      counts_live (reconcile_write now c (n, ex) s2) = (actualUsers s2 c = actualUsers s c)) \<and>
   (redisMode s = Down \<longrightarrow> reconcileRoom_at now c other s = reconcileRoom now c s) \<and>
   counts_live (reconcileRoom now c s) \<and>
   counts_live (sweep now s) \<and>
   (run ends t acts s = Some s' \<longrightarrow>
      (\<forall>d r. room_of (fst (sweep now s')) d = Some r \<longrightarrow>
              users r = int (actualUsers (fst (sweep now s')) d)))"
proof -
  have rd: "snd (reconcile_read c s) = Some (n, ex) \<longrightarrow>
      n = actualUsers s c \<and>
      actualUsers (fst (reconcile_read c s)) c = n \<and>
      snd (reconcile_write now c (n, ex) s2) = [(ToRoom c, UserCountUpdated n)] \<and>
      counts_live (reconcile_write now c (n, ex) s2) = (actualUsers s2 c = actualUsers s c)"
    using reconcile_read_count[of c s n ex] reconcile_write_report[of now c n ex s2]
      counts_live_reconcile_write[of now c n ex s2]
    by simp
  have dn: "redisMode s = Down \<longrightarrow> reconcileRoom_at now c other s = reconcileRoom now c s"
    by (simp add: reconcileRoom_at_Down)
  have sw: "run ends t acts s = Some s' \<longrightarrow>
      (\<forall>d r. room_of (fst (sweep now s')) d = Some r \<longrightarrow>
              users r = int (actualUsers (fst (sweep now s')) d))"
    using sweep_consistent by blast
  show ?thesis
    using counts_live_leavePrevious[of now sock s] counts_live_enterRoom_resume[of now sock c p s]
      counts_live_disconnect[of now sock s] counts_live_updateRoomInfo[of now c s]
      counts_live_reconcileRoom[of now c s] counts_live_sweep[of now s] rd dn sw
    by blast
qed

lemma ex_drift_state:
  "enterRoom_probe [] (ex_empty Up) = Awaited False"
  "leavePrevious 1000 ''A'' (ex_empty Up) = (ex_empty Up, [])"
  "\<not> joinRoom_usersList [] (ex_empty Up)"
  "room_of ex_drift [] =
     Some \<lparr>createdAt = 1000, lastActive = 1000, users = 3, creatorId = JStr ''C'',
           drawingEnabled = JBool True\<rparr>"
  "rooms ex_drift =
     [([], \<lparr>createdAt = 1000, lastActive = 1000, users = 3, creatorId = JStr ''C'',
            drawingEnabled = JBool True\<rparr>)]"
  "adapter ex_drift [] = [''B'', ''C'']"
  "currentRoom ex_drift ''B'' = Some []"
  "redisMode ex_drift = Up"
  "hashes (redis ex_drift) [] \<noteq> None"
  by (simp_all add: ex_drift_def joinRoom_usersList_def scenario_simps)

lemma ex_drift_read:
  "snd (reconcile_read [] ex_drift) = Some (2, True)"
  "adapter (fst (reconcile_read [] ex_drift)) [] = [''B'', ''C'']"
  "redisMode (fst (reconcile_read [] ex_drift)) = Up"
  "currentRoom (fst (reconcile_read [] ex_drift)) ''B'' = Some []"
  by (simp_all add: reconcile_read_def ex_drift_state actualUsers_def r_exists_def)

lemma ex_drift_leave:
  "adapter (fst (disconnect 6000 ''B'' (fst (reconcile_read [] ex_drift)))) [] = [''C'']"
  "snd (disconnect 6000 ''B'' (fst (reconcile_read [] ex_drift))) = []"
  by (simp_all add: disconnect_def joinedRoom_def ex_drift_read Let_def)

lemma ex_drift_sweep_at:
  "snd (sweep_at 6000 ex_B_leaves ex_drift) = [(ToRoom [], UserCountUpdated 2)]"
  "adapter (fst (sweep_at 6000 ex_B_leaves ex_drift)) [] = [''C'']"
proof -
  obtain s1 where r: "reconcile_read [] ex_drift = (s1, Some (2, True))"
    using ex_drift_read(1) by (cases "reconcile_read [] ex_drift") simp
  then have s1: "adapter s1 [] = [''B'', ''C'']" "redisMode s1 = Up"
      "currentRoom s1 ''B'' = Some []"
    using ex_drift_read by simp_all
  obtain s2 where d: "disconnect 6000 ''B'' s1 = (s2, [])" and a2: "adapter s2 [] = [''C'']"
    using ex_drift_leave r by (cases "disconnect 6000 ''B'' s1") simp
  have at: "reconcileRoom_at 6000 [] (ex_B_leaves []) ex_drift =
              (fst (reconcile_write 6000 [] (2, True) s2), [(ToRoom [], UserCountUpdated 2)])"
    using r s1 d
    by (simp add: reconcileRoom_at_def ex_B_leaves_def reconcile_write_def split: prod.splits)
  show "snd (sweep_at 6000 ex_B_leaves ex_drift) = [(ToRoom [], UserCountUpdated 2)]"
    by (simp add: sweep_at_def ex_drift_state at split: prod.splits)
  have "adapter (fst (sweep_at 6000 ex_B_leaves ex_drift)) =
          adapter (fst (reconcile_write 6000 [] (2, True) s2))"
    using fold_evictRoom
    by (simp add: sweep_at_def ex_drift_state at split: prod.splits)
  then show "adapter (fst (sweep_at 6000 ex_B_leaves ex_drift)) [] = [''C'']"
    using a2 by simp
qed

lemma ex_drift_down:
  "snd (reconcileRoom 6000 [] (ex_drift\<lparr>redisMode := Down\<rparr>)) =
     [(ToRoom [], UserCountUpdated 2)]"
  "adapter (fst (reconcileRoom 6000 [] (ex_drift\<lparr>redisMode := Down\<rparr>))) [] = [''B'', ''C'']"
  by (simp_all add: reconcileRoom_unfold room_of_def ex_drift_state actualUsers_def
      set_room_def Let_def)

lemma ex_left_state:
  "\<not> joinRoom_rejects 1000 ''A'' [] (ex_empty Up)"
  "rooms ex_left =
     [([], \<lparr>createdAt = 1000, lastActive = 1000, users = 1, creatorId = JStr ''A'',
            drawingEnabled = JBool True\<rparr>)]"
  "adapter ex_left [] = []"
  "redisMode ex_left = Up"
  by (simp_all add: ex_left_def joinRoom_rejects_def joinRoom_usersList_def scenario_simps)

lemma ex_left_sweep:
  "snd (sweep 6000 ex_left) = [(ToRoom [], UserCountUpdated 0)]"
  "room_of (fst (sweep 6000 ex_left)) [] =
     Some \<lparr>createdAt = 1000, lastActive = 1000, users = 0, creatorId = JStr ''A'',
           drawingEnabled = JBool True\<rparr>"
  "adapter (fst (sweep 6000 ex_left)) [] = []"
  by (simp_all add: sweep_def reconcileRoom_unfold evictRoom_def room_of_def set_room_def
      actualUsers_def ex_left_state Let_def)

theorem member_counts_live_when_read_witness:
  "counts_live (disconnect 6000 ''B'' (ex_server Down (JBool True))) \<and>
   snd (reconcile_read [] ex_drift) = Some (2, True) \<and>
   2 = actualUsers ex_drift [] \<and>
   snd (reconcile_write 6000 [] (2, True) (fst (reconcile_read [] ex_drift))) =
     [(ToRoom [], UserCountUpdated 2)] \<and>
   counts_live (reconcile_write 6000 [] (2, True) (fst (reconcile_read [] ex_drift))) \<and>
   \<not> counts_live (reconcile_write 6000 [] (2, True)
        (fst (disconnect 6000 ''B'' (fst (reconcile_read [] ex_drift))))) \<and>
   snd (reconcileRoom_at 6000 [] (disconnect 6000 ''B'') (ex_drift\<lparr>redisMode := Down\<rparr>)) =
     [(ToRoom [], UserCountUpdated 2)] \<and>
   adapter (fst (reconcileRoom_at 6000 [] (disconnect 6000 ''B'')
                   (ex_drift\<lparr>redisMode := Down\<rparr>))) [] = [''B'', ''C''] \<and>
   run True 1000 [Join ''A'' [], Leave ''A''] (ex_empty Up) = Some ex_left \<and>
   map_option users (room_of ex_left []) = Some 1 \<and>
   room_of (fst (sweep 6000 ex_left)) [] =
     Some \<lparr>createdAt = 1000, lastActive = 1000, users = 0, creatorId = JStr ''A'',
           drawingEnabled = JBool True\<rparr> \<and>
   (0::int) = int (actualUsers (fst (sweep 6000 ex_left)) [])"
proof -
  have run: "run True 1000 [Join ''A'' [], Leave ''A''] (ex_empty Up) = Some ex_left"
    by (simp add: ex_left_state(1) ex_left_def)
  note t1 = member_counts_live_when_read
    [where now = 6000 and sock = "''B''" and s = "ex_server Down (JBool True)"]
  note t2 = member_counts_live_when_read
    [where now = 6000 and c = "[]" and s = ex_drift and n = 2 and ex = True
       and ?s2.0 = "fst (reconcile_read [] ex_drift)"]
  note t3 = member_counts_live_when_read
    [where now = 6000 and c = "[]" and s = ex_drift and n = 2 and ex = True
       and ?s2.0 = "fst (disconnect 6000 ''B'' (fst (reconcile_read [] ex_drift)))"]
  note t4 = member_counts_live_when_read
    [where now = 6000 and c = "[]" and s = "ex_drift\<lparr>redisMode := Down\<rparr>"
       and other = "disconnect 6000 ''B''"]
  note t5 = member_counts_live_when_read
    [where now = 6000 and s = "ex_empty Up" and ends = True and t = 1000
       and acts = "[Join ''A'' [], Leave ''A'']" and s' = ex_left]
  have live: "counts_live (disconnect 6000 ''B'' (ex_server Down (JBool True)))"
    using t1 by blast
  have rd: "snd (reconcile_read [] ex_drift) = Some (2, True)" by (rule ex_drift_read)
  from t2 rd have w2: "2 = actualUsers ex_drift []"
      "snd (reconcile_write 6000 [] (2, True) (fst (reconcile_read [] ex_drift))) =
         [(ToRoom [], UserCountUpdated 2)]"
      "counts_live (reconcile_write 6000 [] (2, True) (fst (reconcile_read [] ex_drift))) =
         (actualUsers (fst (reconcile_read [] ex_drift)) [] = actualUsers ex_drift [])"
    by blast+
  from t3 rd have w3:
      "counts_live (reconcile_write 6000 [] (2, True)
          (fst (disconnect 6000 ''B'' (fst (reconcile_read [] ex_drift))))) =
         (actualUsers (fst (disconnect 6000 ''B'' (fst (reconcile_read [] ex_drift)))) [] =
          actualUsers ex_drift [])"
    by blast
  from t4 have w4:
      "reconcileRoom_at 6000 [] (disconnect 6000 ''B'') (ex_drift\<lparr>redisMode := Down\<rparr>) =
       reconcileRoom 6000 [] (ex_drift\<lparr>redisMode := Down\<rparr>)"
    by simp
  from t5 run have w5: "\<And>d r. room_of (fst (sweep 6000 ex_left)) d = Some r \<Longrightarrow>
      users r = int (actualUsers (fst (sweep 6000 ex_left)) d)"
    by blast
  from w5[OF ex_left_sweep(2)]
  have c5: "(0::int) = int (actualUsers (fst (sweep 6000 ex_left)) [])"
    by simp
  have l2: "counts_live (reconcile_write 6000 [] (2, True) (fst (reconcile_read [] ex_drift)))"
    using w2(3) by (simp add: actualUsers_def ex_drift_read ex_drift_state)
  have l3: "\<not> counts_live (reconcile_write 6000 [] (2, True)
        (fst (disconnect 6000 ''B'' (fst (reconcile_read [] ex_drift)))))"
    using w3 by (simp add: actualUsers_def ex_drift_leave ex_drift_state)
  have u: "map_option users (room_of ex_left []) = Some 1"
    by (simp add: room_of_def ex_left_state)
  show ?thesis
    using live rd w2(1,2) l2 l3 run c5 u
    by (simp add: ex_left_sweep(2) w4 ex_drift_down ex_drift_state(6))
qed

text \<open>
  The sweep at the room with the empty code, whose cached counter is 3 with \<open>B\<close> and \<open>C\<close>
  connected. It reads 2 and waits for Redis; meanwhile \<open>B\<close> disconnects; then it sends
  \<^verbatim>\<open>userCountUpdated\<close> with 2 to the room, where \<open>C\<close> is alone.
\<close>

theorem sweep_reports_stale_count_counterexample:
  "map_option users (room_of ex_drift []) = Some 3 \<and>
   adapter ex_drift [] = [''B'', ''C''] \<and>
   snd (sweep_at 6000 ex_B_leaves ex_drift) = [(ToRoom [], UserCountUpdated 2)] \<and>
   recipients (fst (sweep_at 6000 ex_B_leaves ex_drift)) (ToRoom []) = [''C''] \<and>
   actualUsers (fst (sweep_at 6000 ex_B_leaves ex_drift)) [] = 1 \<and>
   \<not> counts_live (sweep_at 6000 ex_B_leaves ex_drift)"
  by (simp add: ex_drift_state ex_drift_sweep_at counts_live_def actualUsers_def)

end
